theory Spec2Isabelle
  imports Complex_Main
begin

section \<open>Python values\<close>

subsection \<open>Strings\<close>

text \<open>
  A Python \<open>str\<close> is a sequence of Unicode code points, so a string is a list of
  natural numbers. \<open>u\<close> reads an ASCII literal; a code point beyond ASCII is written
  as its number (the rupee sign is 8377).
\<close>

type_synonym ustring = "nat list"

definition u :: "string \<Rightarrow> ustring" where
  "u s = map of_char s"

text \<open>The code points for which \<open>str.isspace\<close> holds; \<open>str.strip()\<close> removes them at both ends.\<close>

definition whitespace :: "nat list" where
  "whitespace = [9, 10, 11, 12, 13, 28, 29, 30, 31, 32, 133, 160, 5760,
     8192, 8193, 8194, 8195, 8196, 8197, 8198, 8199, 8200, 8201, 8202,
     8232, 8233, 8239, 8287, 12288]"

definition isspace :: "nat \<Rightarrow> bool" where
  "isspace c = (c \<in> set whitespace)"

definition strip :: "ustring \<Rightarrow> ustring" where
  "strip s = rev (dropWhile isspace (rev (dropWhile isspace s)))"

text \<open>\<open>s.replace(old, new)\<close> for a one-character \<open>old\<close>, the only form the program uses.\<close>

definition replace :: "nat \<Rightarrow> ustring \<Rightarrow> ustring \<Rightarrow> ustring" where
  "replace old new s = concat (map (\<lambda>c. if c = old then new else [c]) s)"

text \<open>
  \<open>str.upper()\<close>. The letters a to z are mapped; a code point beyond ASCII is left as it
  is (Python also maps the cased letters of other scripts).
\<close>

definition upper_char :: "nat \<Rightarrow> nat" where
  "upper_char c = (if 97 \<le> c \<and> c \<le> 122 then c - 32 else c)"

definition upper :: "ustring \<Rightarrow> ustring" where
  "upper s = map upper_char s"

text \<open>\<open>sub in s\<close> on strings.\<close>

fun startswith :: "ustring \<Rightarrow> ustring \<Rightarrow> bool" where
  "startswith s [] = True"
| "startswith [] (p # ps) = False"
| "startswith (c # cs) (p # ps) = (c = p \<and> startswith cs ps)"

fun contains :: "ustring \<Rightarrow> ustring \<Rightarrow> bool" where
  "contains [] sub = (sub = [])"
| "contains (c # cs) sub = (startswith (c # cs) sub \<or> contains cs sub)"

subsection \<open>Decimal digits\<close>

text \<open>
  Both \<open>\d\<close> in a \<open>str\<close> pattern and \<open>float()\<close> read every Unicode decimal digit
  (category Nd). These come in runs of ten, from the zero of a script to its nine;
  the list holds the zero of each run (Unicode 14, as CPython 3.11 has it).
\<close>

definition decimal_zeros :: "nat list" where
  "decimal_zeros = [48, 1632, 1776, 1984, 2406, 2534, 2662, 2790, 2918, 3046, 3174, 3302,
     3430, 3558, 3664, 3792, 3872, 4160, 4240, 6112, 6160, 6470, 6608, 6784, 6800, 6992,
     7088, 7232, 7248, 42528, 43216, 43264, 43472, 43504, 43600, 44016, 65296, 66720,
     68912, 69734, 69872, 69942, 70096, 70384, 70736, 70864, 71248, 71360, 71472, 71904,
     72016, 72784, 73040, 73120, 92768, 92864, 93008, 120782, 120792, 120802, 120812,
     120822, 123200, 123632, 125264, 130032]"

definition decimal :: "nat \<Rightarrow> nat option" where
  "decimal c = (case filter (\<lambda>z. z \<le> c \<and> c < z + 10) decimal_zeros of
                  [] \<Rightarrow> None | z # _ \<Rightarrow> Some (c - z))"

definition isdecimal :: "nat \<Rightarrow> bool" where
  "isdecimal c = (decimal c \<noteq> None)"

definition digit_of :: "nat \<Rightarrow> nat" where
  "digit_of c = (case decimal c of None \<Rightarrow> 0 | Some d \<Rightarrow> d)"

subsection \<open>Floats\<close>

text \<open>
  A Python \<open>float\<close> is an IEEE 754 double. \<open>Finite m e\<close> is the double of value
  \<open>m * 2 ^ e\<close>, held in the one form that rounding produces: \<open>2 ^ 52 \<le> \<bar>m\<bar> < 2 ^ 53\<close>
  for a normal number, \<open>e = - 1074\<close> for a subnormal one, \<open>Finite 0 0\<close> for zero (the
  sign of a zero is not kept).
\<close>

datatype pyfloat = Finite int int | PosInf | NegInf | NaN

fun bitlen :: "nat \<Rightarrow> nat" where
  "bitlen n = (if n = 0 then 0 else Suc (bitlen (n div 2)))"

declare bitlen.simps [simp del]

text \<open>The integer nearest to \<open>n / d\<close> for \<open>0 \<le> n\<close> and \<open>0 < d\<close>, a tie going to the even one.\<close>

definition tie_even :: "int \<Rightarrow> int \<Rightarrow> int \<Rightarrow> int" where
  "tie_even d q r =
     (if 2 * r < d then q
      else if d < 2 * r then q + 1
      else if even q then q else q + 1)"

definition round_half_even :: "int \<Rightarrow> int \<Rightarrow> int" where
  "round_half_even n d = tie_even d (n div d) (n mod d)"

text \<open>\<open>n / d\<close> divided by \<open>2 ^ e\<close>, as a fraction of integers.\<close>

definition scale2 :: "int \<Rightarrow> int \<Rightarrow> int \<Rightarrow> int \<times> int" where
  "scale2 n d e = (if 0 \<le> e then (n, d * 2 ^ nat e) else (n * 2 ^ nat (- e), d))"

definition round_at :: "int \<Rightarrow> int \<Rightarrow> int \<Rightarrow> int" where
  "round_at p b e = round_half_even (fst (scale2 p b e)) (snd (scale2 p b e))"

text \<open>
  The exponent \<open>e\<close> with \<open>2 ^ e \<le> p / b < 2 ^ (e + 1)\<close>, for positive \<open>p\<close> and \<open>b\<close>: the
  difference of the bit lengths, or one less.
\<close>

definition at_least_pow2 :: "int \<Rightarrow> int \<Rightarrow> int \<Rightarrow> bool" where
  "at_least_pow2 p b e = (snd (scale2 p b e) \<le> fst (scale2 p b e))"

definition lower_exp :: "int \<Rightarrow> int \<Rightarrow> int \<Rightarrow> int" where
  "lower_exp p b e = (if at_least_pow2 p b e then e else e - 1)"

definition floor_log2 :: "int \<Rightarrow> int \<Rightarrow> int" where
  "floor_log2 p b = lower_exp p b (int (bitlen (nat p)) - int (bitlen (nat b)))"

text \<open>
  The exponent of the last mantissa bit of a double of binary exponent \<open>e\<close>: 52 places
  below \<open>e\<close>, and never below that of the subnormal numbers.
\<close>

definition quantum :: "int \<Rightarrow> int" where
  "quantum e = max e (- 1022) - 52"

text \<open>
  A mantissa \<open>m < 2 ^ 53\<close> at exponent \<open>x\<close>, with its sign: an infinity beyond the
  largest double, which is \<open>(2 ^ 53 - 1) * 2 ^ 971\<close>.
\<close>

definition make_double :: "bool \<Rightarrow> int \<Rightarrow> int \<Rightarrow> pyfloat" where
  "make_double neg m x =
     (if 971 < x then (if neg then NegInf else PosInf)
      else if m = 0 then Finite 0 0
      else Finite (if neg then - m else m) x)"

text \<open>A mantissa that rounding took up to \<open>2 ^ 53\<close> is \<open>2 ^ 52\<close> at the next exponent.\<close>

definition carry :: "bool \<Rightarrow> int \<Rightarrow> int \<Rightarrow> pyfloat" where
  "carry neg n x = (if n = 2 ^ 53 then make_double neg (2 ^ 52) (x + 1) else make_double neg n x)"

definition nearest_at :: "bool \<Rightarrow> int \<Rightarrow> int \<Rightarrow> int \<Rightarrow> pyfloat" where
  "nearest_at neg p b x = carry neg (round_at p b x) x"

text \<open>
  \<open>nearest_double a b\<close> is the double nearest to \<open>a / b\<close> (for \<open>0 < b\<close>), a tie going to
  the even mantissa, and an infinity beyond the largest double: the rounding of
  \<open>float(str)\<close>, of \<open>/\<close> and of \<open>round\<close>.
\<close>

definition nearest_double :: "int \<Rightarrow> int \<Rightarrow> pyfloat" where
  "nearest_double a b =
     (if a = 0 then Finite 0 0
      else nearest_at (a < 0) \<bar>a\<bar> b (quantum (floor_log2 \<bar>a\<bar> b)))"

subsection \<open>Values and exceptions\<close>

datatype pyval = PyStr ustring | PyInt int | PyBool bool | PyFloat pyfloat | PyNone

datatype exn = ValueError | OverflowError | RequestException | HTTPError | OtherError

text \<open>The marker \<open>"N/A"\<close> the program puts where a value could not be determined.\<close>

definition NA :: pyval where
  "NA = PyStr (u ''N/A'')"

text \<open>
  \<open>float(s)\<close> on a string: surrounding white space is dropped; what remains is a sign,
  digits and at most one point with a digit on one side of it at least. Exponents,
  underscores, \<open>inf\<close> and \<open>nan\<close>, which Python reads as well, are answered with
  \<open>ValueError\<close> here; the program only converts strings in which none of them occurs.
\<close>

fun split_sign :: "ustring \<Rightarrow> bool \<times> ustring" where
  "split_sign [] = (False, [])"
| "split_sign (c # cs) =
     (if c = 45 then (True, cs) else if c = 43 then (False, cs) else (False, c # cs))"

definition digits_value :: "ustring \<Rightarrow> nat" where
  "digits_value ds = foldl (\<lambda>a c. 10 * a + digit_of c) 0 ds"

definition signed_double :: "bool \<Rightarrow> nat \<Rightarrow> nat \<Rightarrow> pyfloat" where
  "signed_double neg n k = nearest_double (if neg then - int n else int n) (10 ^ k)"

fun float_parts :: "bool \<Rightarrow> ustring \<Rightarrow> ustring \<Rightarrow> exn + pyfloat" where
  "float_parts neg ip [] =
     (if ip \<noteq> [] then Inr (signed_double neg (digits_value ip) 0) else Inl ValueError)"
| "float_parts neg ip (c # fs) =
     (if c = 46 \<and> list_all isdecimal fs \<and> (ip \<noteq> [] \<or> fs \<noteq> [])
      then Inr (signed_double neg (digits_value (ip @ fs)) (length fs))
      else Inl ValueError)"

definition float_body :: "bool \<Rightarrow> ustring \<Rightarrow> exn + pyfloat" where
  "float_body neg body = float_parts neg (takeWhile isdecimal body) (dropWhile isdecimal body)"

definition py_float :: "ustring \<Rightarrow> exn + pyfloat" where
  "py_float s = float_body (fst (split_sign (strip s))) (snd (split_sign (strip s)))"

section \<open>Regular expressions\<close>

text \<open>
  The patterns of the program are built from literal characters, \<open>\d\<close>, sequence,
  \<open>?\<close>, \<open>+\<close> and groups. A regular expression is matched against a whole string by
  taking its derivative character by character.
\<close>

datatype charset = Lit nat | Digit

fun inset :: "charset \<Rightarrow> nat \<Rightarrow> bool" where
  "inset (Lit a) c = (c = a)"
| "inset Digit c = isdecimal c"

datatype regex = Never | Empty | One charset | Then regex regex | Or regex regex | Many regex

definition Opt :: "regex \<Rightarrow> regex" where
  "Opt r = Or r Empty"

definition Some1 :: "regex \<Rightarrow> regex" where
  "Some1 r = Then r (Many r)"

fun empty_ok :: "regex \<Rightarrow> bool" where
  "empty_ok Never = False"
| "empty_ok Empty = True"
| "empty_ok (One cs) = False"
| "empty_ok (Then r s) = (empty_ok r \<and> empty_ok s)"
| "empty_ok (Or r s) = (empty_ok r \<or> empty_ok s)"
| "empty_ok (Many r) = True"

fun after :: "nat \<Rightarrow> regex \<Rightarrow> regex" where
  "after c Never = Never"
| "after c Empty = Never"
| "after c (One cs) = (if inset cs c then Empty else Never)"
| "after c (Then r s) =
     (if empty_ok r then Or (Then (after c r) s) (after c s) else Then (after c r) s)"
| "after c (Or r s) = Or (after c r) (after c s)"
| "after c (Many r) = Then (after c r) (Many r)"

fun fullmatch :: "regex \<Rightarrow> ustring \<Rightarrow> bool" where
  "fullmatch r [] = empty_ok r"
| "fullmatch r (c # cs) = fullmatch (after c r) cs"

text \<open>
  \<open>re.match('^' + r + '$', s)\<close>: the match starts at the start of the string, and \<open>$\<close>
  (without \<open>re.MULTILINE\<close>) holds at the end of the string and also just before a line
  feed that ends the string.
\<close>

definition match_dollar :: "regex \<Rightarrow> ustring \<Rightarrow> bool" where
  "match_dollar r s =
     (fullmatch r s \<or> (s \<noteq> [] \<and> last s = 10 \<and> fullmatch r (butlast s)))"

text \<open>The pattern \<open>-?\d+(\.\d+)?\<close> of lines 35 and 63.\<close>

definition number_re :: regex where
  "number_re = Then (Opt (One (Lit 45)))
                 (Then (Some1 (One Digit))
                    (Opt (Then (One (Lit 46)) (Some1 (One Digit)))))"

definition is_valid_number :: "ustring \<Rightarrow> bool" where
  "is_valid_number v = match_dollar number_re v"

section \<open>Parsing an extracted text\<close>

text \<open>
  Lines 35 to 37 and lines 63 and 65: a text that matches the pattern is converted with
  \<open>float\<close>, any other gives \<open>"N/A"\<close>.
\<close>

definition to_number :: "ustring \<Rightarrow> exn + pyval" where
  "to_number v =
     (if is_valid_number v
      then (case py_float v of Inl e \<Rightarrow> Inl e | Inr f \<Rightarrow> Inr (PyFloat f))
      else Inr NA)"

text \<open>
  Line 34: the text of a statement-table cell loses the white space at its ends, then
  every comma, every hyphen and every space.
\<close>

definition table_text :: "ustring \<Rightarrow> ustring" where
  "table_text t = replace 32 [] (replace 45 [] (replace 44 [] (strip t)))"

definition table_value :: "ustring \<Rightarrow> exn + pyval" where
  "table_value t = to_number (table_text t)"

text \<open>
  Line 62: the text of a ratio value loses the white space at its ends, then every
  rupee sign, every percent sign and every comma.
\<close>

definition ratio_text :: "ustring \<Rightarrow> ustring" where
  "ratio_text t = replace 44 [] (replace 37 [] (replace 8377 [] (strip t)))"

definition ratio_value :: "ustring \<Rightarrow> exn + pyval" where
  "ratio_value t = to_number (ratio_text t)"

subsection \<open>The rule in the words of the specification\<close>

text \<open>
  The strict numeric pattern: an optional leading minus, digits, and optionally a decimal
  point and digits.
\<close>

definition digits1 :: "ustring \<Rightarrow> bool" where
  "digits1 ds = (ds \<noteq> [] \<and> list_all isdecimal ds)"

fun fraction_ok :: "ustring \<Rightarrow> bool" where
  "fraction_ok [] = True"
| "fraction_ok (c # es) = (c = 46 \<and> digits1 es)"

definition unsigned_ok :: "ustring \<Rightarrow> bool" where
  "unsigned_ok b = (takeWhile isdecimal b \<noteq> [] \<and> fraction_ok (dropWhile isdecimal b))"

fun strict_numeric :: "ustring \<Rightarrow> bool" where
  "strict_numeric [] = False"
| "strict_numeric (c # cs) = (if c = 45 then unsigned_ok cs else unsigned_ok (c # cs))"

text \<open>The text of a sign: a minus or nothing.\<close>

definition sign_text :: "bool \<Rightarrow> ustring" where
  "sign_text neg = (if neg then [45] else [])"

text \<open>A text that is strictly numeric, or is so up to one line feed at its end.\<close>

definition numeric_text :: "ustring \<Rightarrow> bool" where
  "numeric_text v = (strict_numeric v \<or> (v \<noteq> [] \<and> last v = 10 \<and> strict_numeric (butlast v)))"

text \<open>
  The number a numeric text denotes: the digits before and after the point, read in base
  ten, over the power of ten of the digits after the point, with the sign; as a double.
\<close>

fun unsigned_part :: "ustring \<Rightarrow> ustring" where
  "unsigned_part [] = []"
| "unsigned_part (c # cs) = (if c = 45 then cs else c # cs)"

definition whole_digits :: "ustring \<Rightarrow> ustring" where
  "whole_digits v = takeWhile isdecimal (unsigned_part v)"

definition fraction_digits :: "ustring \<Rightarrow> ustring" where
  "fraction_digits v = takeWhile isdecimal (tl (dropWhile isdecimal (unsigned_part v)))"

definition number_of :: "ustring \<Rightarrow> pyfloat" where
  "number_of v =
     signed_double (unsigned_part v \<noteq> v)
       (digits_value (whole_digits v @ fraction_digits v)) (length (fraction_digits v))"

definition parsed :: "ustring \<Rightarrow> pyval" where
  "parsed v = (if numeric_text v then PyFloat (number_of v) else NA)"

text \<open>Normalization: the white space at the ends is dropped, then every one of the given symbols.\<close>

definition strip_symbols :: "nat list \<Rightarrow> ustring \<Rightarrow> ustring" where
  "strip_symbols syms t = filter (\<lambda>c. c \<notin> set syms) (strip t)"

section \<open>The language of a regular expression\<close>

fun lang :: "regex \<Rightarrow> ustring set" where
  "lang Never = {}"
| "lang Empty = {[]}"
| "lang (One cs) = {[c] | c. inset cs c}"
| "lang (Then r s) = {x @ y | x y. x \<in> lang r \<and> y \<in> lang s}"
| "lang (Or r s) = lang r \<union> lang s"
| "lang (Many r) = {concat ws | ws. set ws \<subseteq> lang r}"

section \<open>The symbol table and the fallback\<close>

text \<open>\<open>SYMBOL_MAP\<close>, lines 17 to 21.\<close>

record map_entry =
  yfinance :: ustring
  screener_name :: ustring

definition SYMBOL_MAP :: "(ustring \<times> map_entry) list" where
  "SYMBOL_MAP =
     [(u ''INFOSYS'', \<lparr>yfinance = u ''INFY.NS'', screener_name = u ''INFOSYS''\<rparr>),
      (u ''HDFC'', \<lparr>yfinance = u ''HDFCBANK.NS'', screener_name = u ''HDFCBANK''\<rparr>),
      (u ''L&T'', \<lparr>yfinance = u ''LT.NS'', screener_name = u ''LT''\<rparr>)]"

text \<open>
  Lines 114 to 120: the pair \<open>(full_symbol, screener_name_for_url)\<close> for a stock name.
  Every entry of the table is a non-empty dictionary, so \<open>if map_entry\<close> asks whether
  the name is a key.
\<close>

definition resolve :: "ustring \<Rightarrow> ustring \<times> ustring" where
  "resolve stock_name =
     (case map_of SYMBOL_MAP stock_name of
        Some map_entry \<Rightarrow> (yfinance map_entry, screener_name map_entry)
      | None \<Rightarrow> (replace 32 [] stock_name @ u ''.NS'', stock_name))"

text \<open>The fallback in the words of the specification: all white space removed.\<close>

definition without_whitespace :: "ustring \<Rightarrow> ustring" where
  "without_whitespace s = filter (\<lambda>c. \<not> isspace c) s"

section \<open>Market data\<close>

text \<open>\<open>isinstance(raw_market_cap, (int, float))\<close>; \<open>bool\<close> is a subclass of \<open>int\<close>.\<close>

fun is_int_or_float :: "pyval \<Rightarrow> bool" where
  "is_int_or_float (PyInt n) = True"
| "is_int_or_float (PyBool b) = True"
| "is_int_or_float (PyFloat f) = True"
| "is_int_or_float (PyStr s) = False"
| "is_int_or_float PyNone = False"

text \<open>
  \<open>a / b\<close> on integers, for \<open>0 < b\<close>: the quotient rounded to a double, and
  \<open>OverflowError\<close> when it is too large for one.
\<close>

fun no_overflow :: "pyfloat \<Rightarrow> exn + pyfloat" where
  "no_overflow PosInf = Inl OverflowError"
| "no_overflow NegInf = Inl OverflowError"
| "no_overflow f = Inr f"

definition int_truediv :: "int \<Rightarrow> int \<Rightarrow> exn + pyfloat" where
  "int_truediv a b = no_overflow (nearest_double a b)"

text \<open>\<open>x / b\<close> for a float \<open>x\<close> and a positive integer \<open>b\<close> that is a double itself.\<close>

fun float_truediv :: "pyfloat \<Rightarrow> int \<Rightarrow> pyfloat" where
  "float_truediv (Finite m e) b = nearest_double (fst (scale2 m b (- e))) (snd (scale2 m b (- e)))"
| "float_truediv PosInf b = PosInf"
| "float_truediv NegInf b = NegInf"
| "float_truediv NaN b = NaN"

fun truediv :: "pyval \<Rightarrow> int \<Rightarrow> exn + pyfloat" where
  "truediv (PyInt n) b = int_truediv n b"
| "truediv (PyBool t) b = int_truediv (if t then 1 else 0) b"
| "truediv (PyFloat f) b = Inr (float_truediv f b)"
| "truediv (PyStr s) b = Inl OtherError"
| "truediv PyNone b = Inl OtherError"

text \<open>
  \<open>round(x, 2)\<close> on a float: the value is rounded to two decimal places, a tie going to
  the even digit, and the result is the double nearest to that decimal.
\<close>

definition hundredths :: "int \<Rightarrow> int \<Rightarrow> int" where
  "hundredths m e = round_half_even (fst (scale2 (\<bar>m\<bar> * 100) 1 (- e))) (snd (scale2 (\<bar>m\<bar> * 100) 1 (- e)))"

fun round2 :: "pyfloat \<Rightarrow> exn + pyfloat" where
  "round2 (Finite m e) =
     no_overflow (nearest_double (if m < 0 then - hundredths m e else hundredths m e) 100)"
| "round2 f = Inr f"

text \<open>Line 133: \<open>round(raw_market_cap / 10000000, 2)\<close>.\<close>

definition market_cap_of :: "pyval \<Rightarrow> exn + pyfloat" where
  "market_cap_of raw = (case truediv raw 10000000 of Inl e \<Rightarrow> Inl e | Inr q \<Rightarrow> round2 q)"

text \<open>
  Lines 125 to 135. The argument is what \<open>yf.Ticker(full_symbol).info\<close> gave: the
  dictionary, or the exception it raised. The result is \<open>current_price\<close>,
  \<open>market_cap_cr\<close> and whether the warning of line 135 was shown.
\<close>

type_synonym info = "ustring \<Rightarrow> pyval option"

definition dict_get :: "info \<Rightarrow> ustring \<Rightarrow> pyval \<Rightarrow> pyval" where
  "dict_get d k dflt = (case d k of None \<Rightarrow> dflt | Some v \<Rightarrow> v)"

definition cap_step :: "pyval \<Rightarrow> pyval \<Rightarrow> pyval \<times> pyval \<times> bool" where
  "cap_step current_price raw_market_cap =
     (if is_int_or_float raw_market_cap
      then (case market_cap_of raw_market_cap of
              Inl e \<Rightarrow> (current_price, NA, True)
            | Inr f \<Rightarrow> (current_price, PyFloat f, False))
      else (current_price, NA, False))"

definition market_data :: "exn + info \<Rightarrow> pyval \<times> pyval \<times> bool" where
  "market_data data_yf =
     (case data_yf of
        Inl e \<Rightarrow> (NA, NA, True)
      | Inr d \<Rightarrow> cap_step (dict_get d (u ''currentPrice'') NA) (dict_get d (u ''marketCap'') NA))"

section \<open>Parsed documents\<close>

text \<open>
  The tree that \<open>BeautifulSoup(content, 'html.parser')\<close> builds: a tag has a name (in
  lower case), attributes and children; the leaves are strings and comments. Of the
  attributes the program reads \<open>id\<close> and \<open>class\<close> only, the latter split into its
  names as the library holds it. The document itself is a tag named \<open>[document]\<close>.
\<close>

datatype node =
    Tag (tag_name: ustring) (tag_id: "ustring option") (tag_class: "ustring list")
        (contents: "node list")
  | NavigableString ustring
  | Comment ustring

definition BeautifulSoup :: "node list \<Rightarrow> node" where
  "BeautifulSoup nodes = Tag (u ''[document]'') None [] nodes"

text \<open>
  The nodes below a node in document order, each with its ancestors, the parent first;
  the first argument holds the ancestors of the node itself.
\<close>

fun below :: "node list \<Rightarrow> node \<Rightarrow> (node list \<times> node) list" where
  "below up (Tag n i c ks) =
     concat (map (\<lambda>k. (Tag n i c ks # up, k) # below (Tag n i c ks # up) k) ks)"
| "below up (NavigableString s) = []"
| "below up (Comment s) = []"

definition descendants :: "node \<Rightarrow> node list" where
  "descendants n = map snd (below [] n)"

fun is_tag :: "ustring \<Rightarrow> node \<Rightarrow> bool" where
  "is_tag name (Tag n i c ks) = (n = name)"
| "is_tag name (NavigableString s) = False"
| "is_tag name (Comment s) = False"

fun has_class :: "ustring \<Rightarrow> node \<Rightarrow> bool" where
  "has_class cl (Tag n i c ks) = (cl \<in> set c)"
| "has_class cl (NavigableString s) = False"
| "has_class cl (Comment s) = False"

fun has_id :: "ustring \<Rightarrow> node \<Rightarrow> bool" where
  "has_id v (Tag n i c ks) = (i = Some v)"
| "has_id v (NavigableString s) = False"
| "has_id v (Comment s) = False"

text \<open>\<open>.text\<close>: the strings below a tag, joined; comments are left out.\<close>

fun text_of :: "node \<Rightarrow> ustring" where
  "text_of (Tag n i c ks) = concat (map text_of ks)"
| "text_of (NavigableString s) = s"
| "text_of (Comment s) = []"

text \<open>
  \<open>.string\<close>: the string of a tag whose only child is a string or a comment, or is a
  tag that has a \<open>.string\<close>; otherwise \<open>None\<close>.
\<close>

fun string_of :: "node \<Rightarrow> ustring option" where
  "string_of (Tag n i c [k]) = string_of k"
| "string_of (Tag n i c ks) = None"
| "string_of (NavigableString s) = Some s"
| "string_of (Comment s) = Some s"

definition first :: "'a list \<Rightarrow> 'a option" where
  "first xs = (case xs of [] \<Rightarrow> None | x # _ \<Rightarrow> Some x)"

text \<open>\<open>tag.find_all(name)\<close> and \<open>tag.find(name, class_=cl)\<close>.\<close>

definition find_all :: "ustring \<Rightarrow> node \<Rightarrow> node list" where
  "find_all name n = filter (is_tag name) (descendants n)"

definition find_class :: "ustring \<Rightarrow> ustring \<Rightarrow> node \<Rightarrow> node option" where
  "find_class name cl n = first (filter (\<lambda>k. is_tag name k \<and> has_class cl k) (descendants n))"

text \<open>
  \<open>soup.select_one('div.company-ratios > ul')\<close>: the first \<open>ul\<close> whose parent is a
  \<open>div\<close> of class \<open>company-ratios\<close>.
\<close>

fun ratio_list_here :: "node list \<times> node \<Rightarrow> bool" where
  "ratio_list_here (up, k) =
     (is_tag (u ''ul'') k \<and>
      (case up of [] \<Rightarrow> False
       | p # _ \<Rightarrow> is_tag (u ''div'') p \<and> has_class (u ''company-ratios'') p))"

definition select_ratio_list :: "node \<Rightarrow> node option" where
  "select_ratio_list soup = first (map snd (filter ratio_list_here (below [] soup)))"

text \<open>
  \<open>soup.select_one('section#' + table_id + ' table')\<close>, for a \<open>table_id\<close> that is a CSS
  identifier (the program passes \<open>profit-loss\<close>): the first \<open>table\<close> with an ancestor
  \<open>section\<close> of that id.
\<close>

fun section_table_here :: "ustring \<Rightarrow> node list \<times> node \<Rightarrow> bool" where
  "section_table_here table_id (up, k) =
     (is_tag (u ''table'') k \<and>
      list_ex (\<lambda>a. is_tag (u ''section'') a \<and> has_id table_id a) up)"

definition select_section_table :: "ustring \<Rightarrow> node \<Rightarrow> node option" where
  "select_section_table table_id soup =
     first (map snd (filter (section_table_here table_id) (below [] soup)))"

subsection \<open>The row pattern\<close>

text \<open>
  \<open>re.compile(r'\b' + re.escape(row_name) + r'\b', re.IGNORECASE).search(s)\<close>: the
  name occurs in \<open>s\<close>, letter case apart, with a word boundary at both its ends. A
  word character is a letter, a digit or the underscore; of the code points beyond
  ASCII only the digits are counted here, and letter case is that of \<open>upper_char\<close>
  (Python counts the letters of every script as word characters, and with
  \<open>IGNORECASE\<close> also takes the long s for \<open>s\<close>, the dotless i for \<open>i\<close> and the Kelvin
  sign for \<open>k\<close>). The row name of the program, \<open>Interest\<close>, and the example pages are
  ASCII.
\<close>

definition isword :: "nat \<Rightarrow> bool" where
  "isword c = ((65 \<le> c \<and> c \<le> 90) \<or> (97 \<le> c \<and> c \<le> 122) \<or> c = 95 \<or> isdecimal c)"

definition word_at :: "ustring \<Rightarrow> nat \<Rightarrow> bool" where
  "word_at s k = (k < length s \<and> isword (s ! k))"

definition boundary :: "ustring \<Rightarrow> nat \<Rightarrow> bool" where
  "boundary s k = ((0 < k \<and> word_at s (k - 1)) \<noteq> word_at s k)"

definition same_letters :: "ustring \<Rightarrow> ustring \<Rightarrow> bool" where
  "same_letters a b = (map upper_char a = map upper_char b)"

definition word_match_at :: "ustring \<Rightarrow> ustring \<Rightarrow> nat \<Rightarrow> bool" where
  "word_match_at row_name s k =
     (k + length row_name \<le> length s \<and>
      same_letters (take (length row_name) (drop k s)) row_name \<and>
      boundary s k \<and> boundary s (k + length row_name))"

definition word_search :: "ustring \<Rightarrow> ustring \<Rightarrow> bool" where
  "word_search row_name s = list_ex (word_match_at row_name s) [0..<Suc (length s)]"

section \<open>The extractor\<close>

subsection \<open>A row of a statement table\<close>

text \<open>
  \<open>table.find('td', string=pattern)\<close> of line 29: the first \<open>td\<close> below the table
  whose \<open>.string\<close> the pattern finds itself in; with it comes its parent.
\<close>

fun row_cell_here :: "ustring \<Rightarrow> node list \<times> node \<Rightarrow> bool" where
  "row_cell_here row_name (up, k) =
     (is_tag (u ''td'') k \<and>
      (case string_of k of None \<Rightarrow> False | Some s \<Rightarrow> word_search row_name s))"

definition find_row_cell :: "ustring \<Rightarrow> node \<Rightarrow> (node list \<times> node) option" where
  "find_row_cell row_name table = first (filter (row_cell_here row_name) (below [] table))"

text \<open>
  Lines 31 to 37, from the cell found: the last \<open>td\<close> below its parent is converted.
  The conversion of lines 34 to 36 is an argument, so that a fault in it can be
  followed; the program's own is \<open>table_value\<close>.
\<close>

definition last_cell_value :: "(ustring \<Rightarrow> exn + pyval) \<Rightarrow> node list \<Rightarrow> exn + pyval" where
  "last_cell_value conv data_cols =
     (if data_cols = [] then Inr NA else conv (text_of (last data_cols)))"

fun row_value :: "(ustring \<Rightarrow> exn + pyval) \<Rightarrow> (node list \<times> node) option \<Rightarrow> exn + pyval" where
  "row_value conv None = Inr NA"
| "row_value conv (Some ([], row_td)) = Inl OtherError"
| "row_value conv (Some (parent # up, row_td)) =
     last_cell_value conv (find_all (u ''td'') parent)"

text \<open>Lines 26 to 37: the body of the \<open>try\<close> of \<open>extract_table_value\<close>.\<close>

definition table_body ::
  "(ustring \<Rightarrow> exn + pyval) \<Rightarrow> node \<Rightarrow> ustring \<Rightarrow> ustring \<Rightarrow> exn + pyval" where
  "table_body conv soup table_id row_name =
     (case select_section_table table_id soup of
        None \<Rightarrow> Inr NA
      | Some table \<Rightarrow> row_value conv (find_row_cell row_name table))"

text \<open>Lines 25, 38 and 39: whatever the body raises, the result is \<open>"N/A"\<close>.\<close>

definition extract_table_value_with ::
  "(ustring \<Rightarrow> exn + pyval) \<Rightarrow> node \<Rightarrow> ustring \<Rightarrow> ustring \<Rightarrow> pyval" where
  "extract_table_value_with conv soup table_id row_name =
     (case table_body conv soup table_id row_name of Inl e \<Rightarrow> NA | Inr v \<Rightarrow> v)"

definition extract_table_value :: "node \<Rightarrow> ustring \<Rightarrow> ustring \<Rightarrow> pyval" where
  "extract_table_value soup table_id row_name =
     extract_table_value_with table_value soup table_id row_name"

subsection \<open>The ratio list\<close>

text \<open>
  Lines 58 to 65, the body of the loop for one \<open>li\<close>: an exception, nothing, or the
  value assigned to \<open>data["P/E Ratio"]\<close>.
\<close>

definition pe_name :: "node \<Rightarrow> ustring" where
  "pe_name name_tag = upper (replace 10 [32] (strip (text_of name_tag)))"

definition pe_assign :: "node \<Rightarrow> node \<Rightarrow> exn + pyval option" where
  "pe_assign name_tag value_tag =
     (if contains (pe_name name_tag) (u ''P/E'')
      then (case ratio_value (text_of value_tag) of Inl e \<Rightarrow> Inl e | Inr v \<Rightarrow> Inr (Some v))
      else Inr None)"

fun pe_tags :: "node option \<Rightarrow> node option \<Rightarrow> exn + pyval option" where
  "pe_tags (Some name_tag) (Some value_tag) = pe_assign name_tag value_tag"
| "pe_tags name_tag value_tag = Inr None"

definition pe_entry :: "node \<Rightarrow> exn + pyval option" where
  "pe_entry li = pe_tags (find_class (u ''span'') (u ''name'') li)
                         (find_class (u ''span'') (u ''value'') li)"

text \<open>
  Lines 57 to 65, the loop, with the body as an argument so that a fault in it can be
  followed: the value of \<open>data["P/E Ratio"]\<close> when the loop ends, and the exception
  that ended it, if one did.
\<close>

fun pe_loop :: "(node \<Rightarrow> exn + pyval option) \<Rightarrow> node list \<Rightarrow> pyval \<Rightarrow> pyval \<times> exn option" where
  "pe_loop body [] pe = (pe, None)"
| "pe_loop body (li # summary_points) pe =
     (case body li of
        Inl e \<Rightarrow> (pe, Some e)
      | Inr None \<Rightarrow> pe_loop body summary_points pe
      | Inr (Some v) \<Rightarrow> pe_loop body summary_points v)"

text \<open>Lines 54 to 65.\<close>

definition extract_pe :: "(node \<Rightarrow> exn + pyval option) \<Rightarrow> node \<Rightarrow> pyval \<Rightarrow> pyval \<times> exn option" where
  "extract_pe body soup pe =
     (case select_ratio_list soup of
        None \<Rightarrow> (pe, None)
      | Some ratio_list_ul \<Rightarrow> pe_loop body (find_all (u ''li'') ratio_list_ul) pe)"

section \<open>The fundamentals fetcher\<close>

record screener_data =
  pe_ratio :: pyval
  interest :: pyval

text \<open>Lines 53 to 68, after the document is parsed.\<close>

fun after_pe ::
  "(ustring \<Rightarrow> exn + pyval) \<Rightarrow> node \<Rightarrow> pyval \<times> exn option \<Rightarrow> screener_data" where
  "after_pe conv soup (pe, Some e) = \<lparr>pe_ratio = pe, interest = NA\<rparr>"
| "after_pe conv soup (pe, None) =
     \<lparr>pe_ratio = pe,
      interest = extract_table_value_with conv soup (u ''profit-loss'') (u ''Interest'')\<rparr>"

definition extract_both ::
  "(node \<Rightarrow> exn + pyval option) \<Rightarrow> (ustring \<Rightarrow> exn + pyval) \<Rightarrow> node \<Rightarrow> screener_data" where
  "extract_both body conv soup = after_pe conv soup (extract_pe body soup NA)"

text \<open>
  The request of lines 42 to 49, and the world it goes to: \<open>requests.get\<close> answers
  with a response or raises, and so does the parser on the content.
\<close>

record request =
  url :: ustring
  headers :: "(ustring \<times> ustring) list"
  timeout :: nat

record response =
  status_code :: nat
  content :: "nat list"

definition screener_request :: "ustring \<Rightarrow> request" where
  "screener_request name =
     \<lparr>url = u ''https://www.screener.in/company/''
             @ replace 38 (u ''%26'') (replace 32 (u ''-'') name)
             @ u ''/consolidated/'',
      headers = [(u ''User-Agent'', u ''Mozilla/5.0'')],
      timeout = 10\<rparr>"

text \<open>\<open>response.raise_for_status()\<close> raises for the statuses 400 to 599.\<close>

definition raise_for_status :: "response \<Rightarrow> exn + unit" where
  "raise_for_status r =
     (if 400 \<le> status_code r \<and> status_code r < 600 then Inl HTTPError else Inr ())"

definition unavailable :: screener_data where
  "unavailable = \<lparr>pe_ratio = NA, interest = NA\<rparr>"

fun parsed_step ::
  "(node \<Rightarrow> exn + pyval option) \<Rightarrow> (ustring \<Rightarrow> exn + pyval) \<Rightarrow> exn + node \<Rightarrow> screener_data" where
  "parsed_step body conv (Inl e) = unavailable"
| "parsed_step body conv (Inr soup) = extract_both body conv soup"

fun status_step ::
  "(node \<Rightarrow> exn + pyval option) \<Rightarrow> (ustring \<Rightarrow> exn + pyval) \<Rightarrow>
   (nat list \<Rightarrow> exn + node) \<Rightarrow> response \<Rightarrow> exn + unit \<Rightarrow> screener_data" where
  "status_step body conv parser r (Inl e) = unavailable"
| "status_step body conv parser r (Inr ok) = parsed_step body conv (parser (content r))"

fun response_step ::
  "(node \<Rightarrow> exn + pyval option) \<Rightarrow> (ustring \<Rightarrow> exn + pyval) \<Rightarrow>
   (nat list \<Rightarrow> exn + node) \<Rightarrow> exn + response \<Rightarrow> screener_data" where
  "response_step body conv parser (Inl e) = unavailable"
| "response_step body conv parser (Inr r) = status_step body conv parser r (raise_for_status r)"

text \<open>
  Lines 41 to 74 with the two conversions as arguments, and the function of the
  program, in which they are the program's own. \<open>get\<close> stands for \<open>requests.get\<close> and
  \<open>parser\<close> for \<open>BeautifulSoup(_, 'html.parser')\<close>.
\<close>

definition scrape_with ::
  "(node \<Rightarrow> exn + pyval option) \<Rightarrow> (ustring \<Rightarrow> exn + pyval) \<Rightarrow>
   (request \<Rightarrow> exn + response) \<Rightarrow> (nat list \<Rightarrow> exn + node) \<Rightarrow>
   ustring \<Rightarrow> ustring \<Rightarrow> screener_data" where
  "scrape_with body conv get parser stock_name name =
     response_step body conv parser (get (screener_request name))"

definition scrape_screener_data_minimal ::
  "(request \<Rightarrow> exn + response) \<Rightarrow> (nat list \<Rightarrow> exn + node) \<Rightarrow>
   ustring \<Rightarrow> ustring \<Rightarrow> screener_data" where
  "scrape_screener_data_minimal get parser stock_name name =
     scrape_with pe_entry table_value get parser stock_name name"

subsection \<open>The ratio in the words of the specification\<close>

text \<open>The label and the value text of every entry of the list that has both.\<close>

fun entry_texts :: "node \<Rightarrow> (ustring \<times> ustring) list" where
  "entry_texts li =
     (case (find_class (u ''span'') (u ''name'') li, find_class (u ''span'') (u ''value'') li) of
        (Some n, Some v) \<Rightarrow> [(text_of n, text_of v)]
      | _ \<Rightarrow> [])"

definition ratio_entries :: "node \<Rightarrow> (ustring \<times> ustring) list" where
  "ratio_entries ul = concat (map entry_texts (find_all (u ''li'') ul))"

text \<open>
  An entry matches when its label, without the white space at its ends, with line feeds
  as spaces and in upper case, has \<open>P/E\<close> in it.
\<close>

definition label_matches :: "ustring \<times> ustring \<Rightarrow> bool" where
  "label_matches e = contains (upper (replace 10 [32] (strip (fst e)))) (u ''P/E'')"

definition matching_entries :: "node \<Rightarrow> (ustring \<times> ustring) list" where
  "matching_entries ul = filter label_matches (ratio_entries ul)"

definition ratio_of_entry :: "ustring \<times> ustring \<Rightarrow> pyval" where
  "ratio_of_entry e = parsed (strip_symbols [8377, 37, 44] (snd e))"

subsection \<open>Example documents\<close>

definition ratio_li :: "string \<Rightarrow> string \<Rightarrow> node" where
  "ratio_li label val =
     Tag (u ''li'') None []
       [Tag (u ''span'') None [u ''name''] [NavigableString (u label)],
        Tag (u ''span'') None [u ''nowrap'', u ''value'']
          [Tag (u ''span'') None [u ''number''] [NavigableString (u val)]]]"

definition ratios_div :: "node list \<Rightarrow> node" where
  "ratios_div lis =
     Tag (u ''div'') None [u ''company-ratios''] [Tag (u ''ul'') (Some (u ''top-ratios'')) [] lis]"

definition td :: "string \<Rightarrow> node" where
  "td s = Tag (u ''td'') None [] [NavigableString (u s)]"

definition profit_loss :: "node list \<Rightarrow> node" where
  "profit_loss trs =
     Tag (u ''section'') (Some (u ''profit-loss'')) []
       [Tag (u ''table'') None [] [Tag (u ''tbody'') None [] trs]]"

text \<open>A page with one P/E entry and an Interest row.\<close>

definition page_one :: node where
  "page_one = BeautifulSoup
     [ratios_div [ratio_li ''Market Cap'' ''6,12,345'', ratio_li ''Stock P/E'' ''25.3''],
      profit_loss [Tag (u ''tr'') None [] [td ''Sales'', td ''100'', td ''120''],
                   Tag (u ''tr'') None [] [td ''Interest'', td ''4'', td ''5'']]]"

text \<open>A page whose ratio list has two entries with \<open>P/E\<close> in the label.\<close>

definition page_two :: node where
  "page_two = BeautifulSoup
     [ratios_div [ratio_li ''Stock P/E'' ''25.3'', ratio_li ''Industry P/E'' ''30.1'']]"



text \<open>
  The ratio the specification describes takes the first matching entry; the program's
  loop takes the last one.
\<close>

definition first_match_ratio :: "node \<Rightarrow> pyval" where
  "first_match_ratio ul =
     (case matching_entries ul of [] \<Rightarrow> NA | e # _ \<Rightarrow> ratio_of_entry e)"

definition last_match_ratio :: "node \<Rightarrow> pyval" where
  "last_match_ratio ul =
     (if matching_entries ul = [] then NA else ratio_of_entry (last (matching_entries ul)))"

definition pe_of :: "node \<Rightarrow> pyval" where
  "pe_of soup = (case select_ratio_list soup of None \<Rightarrow> NA | Some ul \<Rightarrow> last_match_ratio ul)"

definition first_match_pe :: "node \<Rightarrow> pyval" where
  "first_match_pe soup =
     (case select_ratio_list soup of None \<Rightarrow> NA | Some ul \<Rightarrow> first_match_ratio ul)"

text \<open>What one entry assigns, and the value after a run of entries.\<close>

definition entry_result :: "node \<Rightarrow> pyval option" where
  "entry_result li =
     (case filter label_matches (entry_texts li) of [] \<Rightarrow> None | e # _ \<Rightarrow> Some (ratio_of_entry e))"

definition last_or :: "(ustring \<times> ustring) list \<Rightarrow> pyval \<Rightarrow> pyval" where
  "last_or ms pe = (if ms = [] then pe else ratio_of_entry (last ms))"

subsection \<open>Example worlds\<close>

text \<open>A request that times out, one that is answered, a parser that raises and one that succeeds.\<close>

definition get_timeout :: "request \<Rightarrow> exn + response" where
  "get_timeout r = Inl RequestException"

definition get_answer :: "nat \<Rightarrow> request \<Rightarrow> exn + response" where
  "get_answer st r = Inr \<lparr>status_code = st, content = []\<rparr>"

definition parser_fails :: "nat list \<Rightarrow> exn + node" where
  "parser_fails c = Inl OtherError"

definition parser_gives :: "node \<Rightarrow> nat list \<Rightarrow> exn + node" where
  "parser_gives soup c = Inr soup"

text \<open>A quote snapshot with a price and a market capitalization.\<close>

definition quote :: "pyval \<Rightarrow> pyval \<Rightarrow> info" where
  "quote price cap k =
     (if k = u ''currentPrice'' then Some price
      else if k = u ''marketCap'' then Some cap else None)"

text \<open>The second component of \<open>market_data\<close>.\<close>

definition market_cap_cr :: "exn + info \<Rightarrow> pyval" where
  "market_cap_cr data_yf = fst (snd (market_data data_yf))"

section \<open>The row pipeline\<close>

subsection \<open>The sheet\<close>

text \<open>
  A cell of the sheet as pandas reads it: a string, the \<open>nan\<close> of an empty cell, or a
  value of another type (a number, a date, a boolean), which is given with the text
  \<open>str()\<close> makes of it. A row gives the cell of every column; the frame has its
  column names in order and its rows, indexed from 0 as \<open>read_excel\<close> leaves them.
\<close>

datatype cell = CStr ustring | CNaN | CObj ustring

fun py_str :: "cell \<Rightarrow> ustring" where
  "py_str (CStr s) = s"
| "py_str CNaN = u ''nan''"
| "py_str (CObj s) = s"

type_synonym row = "ustring \<Rightarrow> cell"

record dataframe =
  columns :: "ustring list"
  rows :: "row list"

text \<open>
  \<open>df.iterrows()\<close>: the rows with their index. A cell is taken as the row holds it
  when the loop reads it; in a frame whose columns are all numbers pandas hands the
  cells of a row over as floats, and the text of a \<open>CObj\<close> is then that of the float.
\<close>

definition iterrows :: "dataframe \<Rightarrow> (nat \<times> row) list" where
  "iterrows df = zip [0..<length (rows df)] (rows df)"

subsection \<open>The world and what the run shows\<close>

text \<open>
  The two sources are arguments: what \<open>yf.Ticker(symbol).info\<close> gives for a symbol,
  what \<open>requests.get\<close> answers and what the parser makes of a content, each a value
  or an exception.
\<close>

record world =
  ticker_info :: "ustring \<Rightarrow> exn + info"
  http_get :: "request \<Rightarrow> exn + response"
  html_parser :: "nat list \<Rightarrow> exn + node"

text \<open>
  What the run does besides computing: the progress bar is set (line 108; the fraction
  is kept exact here, the bar receives the double nearest to it), the name of the stock
  is written (line 122), the warning of line 135 is shown, and the run sleeps (line
  156).
\<close>

datatype event = Progress rat | Processing ustring | YFWarning ustring | Sleep nat

datatype field = Cell cell | Val pyval

type_synonym result = "(ustring \<times> field) list"

record state =
  results :: "result list"
  events :: "event list"

subsection \<open>One row\<close>

text \<open>Line 110.\<close>

definition stock_name_of :: "row \<Rightarrow> ustring" where
  "stock_name_of row = upper (strip (py_str (row (u ''Stock Name''))))"

text \<open>Lines 141 to 148: the dictionary \<open>current_result\<close>, in the order of its keys.\<close>

definition current_result ::
  "row \<Rightarrow> ustring \<Rightarrow> pyval \<times> pyval \<times> bool \<Rightarrow> screener_data \<Rightarrow> result" where
  "current_result row full_symbol yf screener =
     [(u ''Stock Name'', Cell (row (u ''Stock Name''))),
      (u ''YF Symbol Used'', Val (PyStr full_symbol)),
      (u ''Current Price (Rs.)'', Val (fst yf)),
      (u ''Market Cap (Cr.)'', Val (fst (snd yf))),
      (u ''P/E Ratio'', Val (pe_ratio screener)),
      (u ''Interest (Cr.)'', Val (interest screener))]"

text \<open>Lines 151 to 153: a column that is not a key yet is added with the cell of the row.\<close>

fun merge_original :: "ustring list \<Rightarrow> row \<Rightarrow> result \<Rightarrow> result" where
  "merge_original [] row d = d"
| "merge_original (col # cols) row d =
     merge_original cols row (if col \<in> fst ` set d then d else d @ [(col, Cell (row col))])"

text \<open>Lines 114 to 153 for a row that is not skipped, and what the run shows for it.\<close>

definition stock_result :: "world \<Rightarrow> ustring list \<Rightarrow> row \<Rightarrow> ustring \<Rightarrow> result" where
  "stock_result w cols row stock_name =
     merge_original cols row
       (current_result row (fst (resolve stock_name))
          (market_data (ticker_info w (fst (resolve stock_name))))
          (scrape_screener_data_minimal (http_get w) (html_parser w) stock_name
             (snd (resolve stock_name))))"

definition yf_warning :: "ustring \<Rightarrow> pyval \<times> pyval \<times> bool \<Rightarrow> event list" where
  "yf_warning full_symbol yf = (if snd (snd yf) then [YFWarning full_symbol] else [])"

definition stock_events :: "world \<Rightarrow> ustring \<Rightarrow> event list" where
  "stock_events w stock_name =
     Processing stock_name
     # yf_warning (fst (resolve stock_name))
         (market_data (ticker_info w (fst (resolve stock_name))))
     @ [Sleep 1]"

text \<open>
  Lines 106 to 156, the body of the loop: the progress is set first, a row with an empty
  name is left, any other is processed and its result appended.
\<close>

definition progress_of :: "nat \<Rightarrow> nat \<Rightarrow> rat" where
  "progress_of index total_rows = of_nat (index + 1) / of_nat total_rows"

definition after_progress :: "world \<Rightarrow> ustring list \<Rightarrow> row \<Rightarrow> ustring \<Rightarrow> state \<Rightarrow> state" where
  "after_progress w cols row stock_name st =
     (if stock_name = [] then st
      else \<lparr>results = results st @ [stock_result w cols row stock_name],
            events = events st @ stock_events w stock_name\<rparr>)"

definition row_step :: "world \<Rightarrow> ustring list \<Rightarrow> nat \<Rightarrow> nat \<Rightarrow> row \<Rightarrow> state \<Rightarrow> state" where
  "row_step w cols total_rows index row st =
     after_progress w cols row (stock_name_of row)
       (st\<lparr>events := events st @ [Progress (progress_of index total_rows)]\<rparr>)"

fun run_rows :: "world \<Rightarrow> ustring list \<Rightarrow> nat \<Rightarrow> (nat \<times> row) list \<Rightarrow> state \<Rightarrow> state" where
  "run_rows w cols total_rows [] st = st"
| "run_rows w cols total_rows ((index, row) # rest) st =
     run_rows w cols total_rows rest (row_step w cols total_rows index row st)"

text \<open>Lines 96 to 156: the run over a frame that has the column \<open>Stock Name\<close>.\<close>

definition process :: "world \<Rightarrow> dataframe \<Rightarrow> state" where
  "process w df =
     run_rows w (columns df) (length (rows df)) (iterrows df) \<lparr>results = [], events = []\<rparr>"

text \<open>Lines 93 to 95: without that column nothing is run.\<close>

definition start_analysis :: "world \<Rightarrow> dataframe \<Rightarrow> state option" where
  "start_analysis w df =
     (if u ''Stock Name'' \<in> set (columns df) then Some (process w df) else None)"

subsection \<open>The output table\<close>

text \<open>
  Lines 161 to 168: nothing is shown when there is no result; otherwise the columns are
  the six new ones and then the columns of the sheet that are not among them, and every
  row holds what its dictionary has under each.
\<close>

definition final_new_cols :: "ustring list" where
  "final_new_cols = [u ''Stock Name'', u ''YF Symbol Used'', u ''Current Price (Rs.)'',
                     u ''Market Cap (Cr.)'', u ''P/E Ratio'', u ''Interest (Cr.)'']"

definition original_cols :: "ustring list \<Rightarrow> ustring list" where
  "original_cols cols = filter (\<lambda>col. col \<notin> set final_new_cols) cols"

definition select_columns :: "ustring list \<Rightarrow> result \<Rightarrow> field option list" where
  "select_columns cs d = map (map_of d) cs"

definition df_results :: "ustring list \<Rightarrow> result list \<Rightarrow> (ustring list \<times> field option list list) option" where
  "df_results cols rs =
     (if rs = [] then None
      else Some (final_new_cols @ original_cols cols,
                 map (select_columns (final_new_cols @ original_cols cols)) rs))"

subsection \<open>Example sheets and worlds\<close>

text \<open>A world in which both sources fail, and one in which both answer.\<close>

definition world_down :: world where
  "world_down = \<lparr>ticker_info = (\<lambda>s. Inl OtherError), http_get = get_timeout,
                  html_parser = parser_fails\<rparr>"

definition world_up :: world where
  "world_up = \<lparr>ticker_info = (\<lambda>s. Inr (quote (PyInt 1500) (PyInt 123456789))),
                http_get = get_answer 200, html_parser = parser_gives page_one\<rparr>"

text \<open>A sheet of one column and the rows of the given cells.\<close>

definition name_row :: "cell \<Rightarrow> row" where
  "name_row c col = (if col = u ''Stock Name'' then c else CNaN)"

definition names_sheet :: "cell list \<Rightarrow> dataframe" where
  "names_sheet cs = \<lparr>columns = [u ''Stock Name''], rows = map name_row cs\<rparr>"

text \<open>A sheet with two more columns, one of them named as an extracted one.\<close>

definition wide_row :: row where
  "wide_row col =
     (if col = u ''Stock Name'' then CStr (u ''Infosys '')
      else if col = u ''Sector'' then CStr (u ''IT'')
      else if col = u ''P/E Ratio'' then CObj (u ''99'')
      else CNaN)"

definition wide_sheet :: dataframe where
  "wide_sheet = \<lparr>columns = [u ''Sector'', u ''Stock Name'', u ''P/E Ratio''], rows = [wide_row]\<rparr>"

text \<open>The progress values among the events, in their order.\<close>

fun progress_value :: "event \<Rightarrow> rat list" where
  "progress_value (Progress p) = [p]"
| "progress_value (Processing s) = []"
| "progress_value (YFWarning s) = []"
| "progress_value (Sleep n) = []"

definition progress_values :: "event list \<Rightarrow> rat list" where
  "progress_values es = concat (map progress_value es)"

text \<open>What the run shows for one row, and whether a row is kept.\<close>

definition kept :: "row \<Rightarrow> bool" where
  "kept row = (strip (py_str (row (u ''Stock Name''))) \<noteq> [])"

definition row_events :: "world \<Rightarrow> nat \<Rightarrow> nat \<times> row \<Rightarrow> event list" where
  "row_events w total_rows ir =
     Progress (progress_of (fst ir) total_rows)
     # (if kept (snd ir) then stock_events w (stock_name_of (snd ir)) else [])"

section \<open>Evaluation on literals\<close>

lemma isdecimal_ascii: "c < 1632 \<Longrightarrow> isdecimal c = (48 \<le> c \<and> c \<le> 57)"
  by (auto simp: isdecimal_def decimal_def decimal_zeros_def)

lemma digit_of_ascii: "48 \<le> c \<Longrightarrow> c \<le> 57 \<Longrightarrow> digit_of c = c - 48"
  by (auto simp: digit_of_def decimal_def decimal_zeros_def)

lemma bitlen_0: "bitlen 0 = 0"
  by (simp add: bitlen.simps)

lemma bitlen_1: "bitlen 1 = 1"
  by (simp add: bitlen.simps)

lemma bitlen_numeral: "bitlen (numeral k) = Suc (bitlen (numeral k div 2))"
  by (subst bitlen.simps) simp

lemmas double_eval = nearest_double_def nearest_at_def carry_def make_double_def quantum_def
  floor_log2_def lower_exp_def at_least_pow2_def round_at_def scale2_def round_half_even_def
  tie_even_def bitlen_0 bitlen_1 bitlen_numeral

lemmas text_eval = u_def isspace_def whitespace_def strip_def replace_def upper_def
  upper_char_def isdecimal_ascii digit_of_ascii digits_value_def

lemmas number_eval = is_valid_number_def match_dollar_def number_re_def Opt_def Some1_def
  NA_def to_number_def py_float_def float_body_def signed_double_def

section \<open>The matcher decides the language\<close>

lemma empty_ok_lang: "empty_ok r = ([] \<in> lang r)"
proof (induction r)
  case (Many r)
  show ?case by (auto intro: exI[of _ "[]"])
qed auto

lemma many_step:
  assumes "c # w = concat ws" "set ws \<subseteq> A"
  shows "\<exists>x vs. c # x \<in> A \<and> set vs \<subseteq> A \<and> w = x @ concat vs"
  using assms
proof (induction ws)
  case Nil
  then show ?case by simp
next
  case (Cons v vs)
  show ?case
  proof (cases v)
    case Nil
    with Cons show ?thesis by simp
  next
    case (Cons a x)
    with Cons.prems have "a = c" "w = x @ concat vs" "c # x \<in> A" "set vs \<subseteq> A" by auto
    then show ?thesis by blast
  qed
qed

lemma after_lang: "(w \<in> lang (after c r)) = (c # w \<in> lang r)"
proof (induction r arbitrary: w)
  case (Then r s)
  show ?case
  proof
    assume "w \<in> lang (after c (Then r s))"
    then consider (a) x y where "w = x @ y" "x \<in> lang (after c r)" "y \<in> lang s"
      | (b) "empty_ok r" "w \<in> lang (after c s)"
      by (auto split: if_splits)
    then show "c # w \<in> lang (Then r s)"
    proof cases
      case a
      then have "c # w = (c # x) @ y" "c # x \<in> lang r" using Then.IH(1) by simp_all
      with a(3) show ?thesis by (simp del: append.simps) blast
    next
      case b
      then have "c # w = [] @ (c # w)" "[] \<in> lang r" "c # w \<in> lang s"
        using Then.IH(2) by (simp_all add: empty_ok_lang)
      then show ?thesis by (simp del: append.simps) blast
    qed
  next
    assume "c # w \<in> lang (Then r s)"
    then obtain x y where xy: "c # w = x @ y" "x \<in> lang r" "y \<in> lang s" by auto
    show "w \<in> lang (after c (Then r s))"
    proof (cases x)
      case Nil
      with xy have "empty_ok r" "w \<in> lang (after c s)"
        using Then.IH(2) by (simp_all add: empty_ok_lang)
      then show ?thesis by simp
    next
      case (Cons a x')
      with xy have "w = x' @ y" "x' \<in> lang (after c r)" using Then.IH(1) by simp_all
      with xy(3) show ?thesis by auto
    qed
  qed
next
  case (Many r)
  show ?case
  proof
    assume "w \<in> lang (after c (Many r))"
    then obtain x vs where "w = x @ concat vs" "c # x \<in> lang r" "set vs \<subseteq> lang r"
      using Many.IH by auto
    then have "c # w = concat ((c # x) # vs)" "set ((c # x) # vs) \<subseteq> lang r" by simp_all
    then show "c # w \<in> lang (Many r)" by (simp del: concat.simps set_simps) blast
  next
    assume "c # w \<in> lang (Many r)"
    then obtain ws where "c # w = concat ws" "set ws \<subseteq> lang r" by auto
    from many_step[OF this] obtain x vs where
      "c # x \<in> lang r" "set vs \<subseteq> lang r" "w = x @ concat vs" by blast
    then show "w \<in> lang (after c (Many r))" using Many.IH by auto
  qed
qed auto

lemma fullmatch_lang: "fullmatch r s = (s \<in> lang r)"
  by (induction s arbitrary: r) (simp_all add: empty_ok_lang after_lang)


section \<open>The pattern and the strict numeric texts\<close>

lemma space_not_decimal_all: "list_all (\<lambda>c. \<not> isdecimal c) whitespace"
  by (simp add: whitespace_def isdecimal_def decimal_def decimal_zeros_def)

lemma space_not_decimal: "isspace c \<Longrightarrow> \<not> isdecimal c"
  using space_not_decimal_all by (simp add: isspace_def list_all_iff)

lemma not_decimal [simp]:
  "\<not> isdecimal 45" "\<not> isdecimal 46" "\<not> isdecimal 10" "\<not> isdecimal 43"
  by (simp_all add: isdecimal_ascii)

lemma not_space_minus [simp]: "\<not> isspace 45"
  by (simp add: isspace_def whitespace_def)

lemma lang_many_digit: "(ds \<in> lang (Many (One Digit))) = list_all isdecimal ds"
proof
  assume "ds \<in> lang (Many (One Digit))"
  then obtain ws where ws: "ds = concat ws" "set ws \<subseteq> {[c] | c. isdecimal c}" by auto
  have "set ws \<subseteq> {[c] | c. isdecimal c} \<Longrightarrow> list_all isdecimal (concat ws)" for ws
    by (induction ws) auto
  with ws show "list_all isdecimal ds" by simp
next
  assume "list_all isdecimal ds"
  then have "set (map (\<lambda>c. [c]) ds) \<subseteq> lang (One Digit)"
    by (auto simp: list_all_iff)
  moreover have "ds = concat (map (\<lambda>c. [c]) ds)"
    by (induction ds) auto
  ultimately show "ds \<in> lang (Many (One Digit))"
    unfolding lang.simps(6) by blast
qed

lemma lang_digits1: "(ds \<in> lang (Some1 (One Digit))) = digits1 ds"
proof
  assume "ds \<in> lang (Some1 (One Digit))"
  then obtain x w where "ds = x @ w" "x \<in> lang (One Digit)" "w \<in> lang (Many (One Digit))"
    unfolding Some1_def lang.simps(4) by blast
  moreover from this have "list_all isdecimal w" by (simp only: lang_many_digit)
  ultimately show "digits1 ds" by (auto simp: digits1_def)
next
  assume "digits1 ds"
  then obtain c w where "ds = [c] @ w" "isdecimal c" "list_all isdecimal w"
    by (cases ds) (auto simp: digits1_def)
  then have "ds = [c] @ w" "[c] \<in> lang (One Digit)" "w \<in> lang (Many (One Digit))"
    by (simp, simp, simp only: lang_many_digit)
  then show "ds \<in> lang (Some1 (One Digit))"
    unfolding Some1_def lang.simps(4) by blast
qed

lemma lang_fraction:
  "(fs \<in> lang (Opt (Then (One (Lit 46)) (Some1 (One Digit))))) = fraction_ok fs"
proof (cases fs)
  case Nil
  then show ?thesis by (simp add: Opt_def)
next
  case (Cons c es)
  have "(c # es \<in> lang (Then (One (Lit 46)) (Some1 (One Digit)))) = (c = 46 \<and> digits1 es)"
    using lang_digits1 by auto
  with Cons show ?thesis by (simp add: Opt_def)
qed

lemma digits_then_fraction:
  assumes "list_all isdecimal ds" "fraction_ok fs"
  shows "takeWhile isdecimal (ds @ fs) = ds" "dropWhile isdecimal (ds @ fs) = fs"
proof -
  have "takeWhile isdecimal fs = []" "dropWhile isdecimal fs = fs"
    using assms(2) by (cases fs; simp)+
  with assms(1) show "takeWhile isdecimal (ds @ fs) = ds" "dropWhile isdecimal (ds @ fs) = fs"
    by (simp_all add: list_all_iff takeWhile_append2 dropWhile_append2)
qed

lemma unsigned_ok_iff:
  "unsigned_ok w = (\<exists>ds fs. w = ds @ fs \<and> digits1 ds \<and> fraction_ok fs)"
proof
  assume "unsigned_ok w"
  then have "w = takeWhile isdecimal w @ dropWhile isdecimal w"
    "digits1 (takeWhile isdecimal w)" "fraction_ok (dropWhile isdecimal w)"
    by (auto simp: unsigned_ok_def digits1_def list_all_iff dest: set_takeWhileD)
  then show "\<exists>ds fs. w = ds @ fs \<and> digits1 ds \<and> fraction_ok fs" by blast
next
  assume "\<exists>ds fs. w = ds @ fs \<and> digits1 ds \<and> fraction_ok fs"
  then obtain ds fs where "w = ds @ fs" "digits1 ds" "fraction_ok fs" by blast
  then show "unsigned_ok w"
    by (simp add: unsigned_ok_def digits1_def digits_then_fraction)
qed

lemma lang_unsigned:
  "(w \<in> lang (Then (Some1 (One Digit)) (Opt (Then (One (Lit 46)) (Some1 (One Digit)))))) =
   unsigned_ok w"
  unfolding unsigned_ok_iff lang.simps(4) using lang_digits1 lang_fraction by blast

lemma unsigned_ok_no_minus: "\<not> unsigned_ok (45 # w)"
  by (simp add: unsigned_ok_def)

lemma lang_opt_lit:
  "(s \<in> lang (Then (Opt (One (Lit a))) r)) = (s \<in> lang r \<or> (\<exists>w. s = a # w \<and> w \<in> lang r))"
proof
  assume "s \<in> lang (Then (Opt (One (Lit a))) r)"
  then obtain x y where xy: "s = x @ y" "x \<in> lang (Opt (One (Lit a)))" "y \<in> lang r"
    unfolding lang.simps(4) by blast
  from xy(2) have "x = [] \<or> x = [a]" by (auto simp: Opt_def)
  with xy(1,3) show "s \<in> lang r \<or> (\<exists>w. s = a # w \<and> w \<in> lang r)" by auto
next
  assume "s \<in> lang r \<or> (\<exists>w. s = a # w \<and> w \<in> lang r)"
  then obtain x y where "s = x @ y" "x = [] \<or> x = [a]" "y \<in> lang r"
    by (metis append_Cons append_Nil)
  moreover from this have "x \<in> lang (Opt (One (Lit a)))" by (auto simp: Opt_def)
  ultimately show "s \<in> lang (Then (Opt (One (Lit a))) r)"
    unfolding lang.simps(4) by blast
qed

lemma lang_number: "(s \<in> lang number_re) = strict_numeric s"
proof -
  let ?U = "Then (Some1 (One Digit)) (Opt (Then (One (Lit 46)) (Some1 (One Digit))))"
  have "(s \<in> lang number_re) = (s \<in> lang ?U \<or> (\<exists>w. s = 45 # w \<and> w \<in> lang ?U))"
    unfolding number_re_def by (rule lang_opt_lit)
  also have "\<dots> = strict_numeric s"
    unfolding lang_unsigned by (cases s) (auto simp: unsigned_ok_no_minus unsigned_ok_def)
  finally show ?thesis .
qed

lemma is_valid_number_iff: "is_valid_number v = numeric_text v"
  by (simp add: is_valid_number_def match_dollar_def numeric_text_def fullmatch_lang lang_number)


section \<open>Conversion of a numeric text\<close>

lemma sign_text_nonempty [simp]: "(sign_text neg \<noteq> []) = neg" "(sign_text neg = []) = (\<not> neg)"
  by (simp_all add: sign_text_def)

lemma strict_numeric_parts:
  assumes "strict_numeric s"
  obtains neg ds fs where "s = sign_text neg @ ds @ fs" "digits1 ds" "fraction_ok fs"
proof (cases s)
  case Nil
  with assms show ?thesis by simp
next
  case (Cons c cs)
  show ?thesis
  proof (cases "c = 45")
    case True
    with Cons assms obtain ds fs where "cs = ds @ fs" "digits1 ds" "fraction_ok fs"
      by (auto simp: unsigned_ok_iff)
    with Cons True have "s = sign_text True @ ds @ fs" by (simp add: sign_text_def)
    then show ?thesis using \<open>digits1 ds\<close> \<open>fraction_ok fs\<close> that by blast
  next
    case False
    with Cons assms obtain ds fs where "s = ds @ fs" "digits1 ds" "fraction_ok fs"
      by (auto simp: unsigned_ok_iff)
    then have "s = sign_text False @ ds @ fs" by (simp add: sign_text_def)
    then show ?thesis using \<open>digits1 ds\<close> \<open>fraction_ok fs\<close> that by blast
  qed
qed

lemma digits1_ends:
  assumes "digits1 ds"
  shows "ds \<noteq> []" "isdecimal (hd ds)" "isdecimal (last ds)"
  using assms by (auto simp: digits1_def list_all_iff)

lemma numeric_ends:
  assumes "digits1 ds" "fraction_ok fs"
  shows "sign_text neg @ ds @ fs \<noteq> []"
    and "\<not> isspace (hd (sign_text neg @ ds @ fs))"
    and "\<not> isspace (last (sign_text neg @ ds @ fs))"
proof -
  note d = digits1_ends[OF assms(1)]
  show "sign_text neg @ ds @ fs \<noteq> []" using d(1) by simp
  show "\<not> isspace (hd (sign_text neg @ ds @ fs))"
    using d(1,2) by (auto simp: sign_text_def dest: space_not_decimal)
  show "\<not> isspace (last (sign_text neg @ ds @ fs))"
  proof (cases fs)
    case Nil
    with d show ?thesis by (auto dest: space_not_decimal)
  next
    case (Cons c es)
    with assms(2) have "digits1 es" by simp
    from digits1_ends[OF this] Cons show ?thesis
      by (auto dest: space_not_decimal)
  qed
qed

lemma dropWhile_keeps: "s \<noteq> [] \<Longrightarrow> \<not> P (hd s) \<Longrightarrow> dropWhile P s = s"
  by (cases s) auto

lemma strip_clean:
  assumes "s \<noteq> []" "\<not> isspace (hd s)" "\<not> isspace (last s)"
  shows "strip s = s"
proof -
  have "dropWhile isspace (rev s) = rev s"
    using assms by (intro dropWhile_keeps) (simp_all add: hd_rev)
  with assms show ?thesis by (simp add: strip_def dropWhile_keeps)
qed

lemma strip_line_feed:
  assumes "s \<noteq> []" "\<not> isspace (hd s)" "\<not> isspace (last s)"
  shows "strip (s @ [10]) = s"
proof -
  have "dropWhile isspace (rev s) = rev s"
    using assms by (intro dropWhile_keeps) (simp_all add: hd_rev)
  moreover have "dropWhile isspace (s @ [10]) = s @ [10]"
    using assms by (intro dropWhile_keeps) simp_all
  moreover have "isspace 10" by (simp add: isspace_def whitespace_def)
  ultimately show ?thesis by (simp add: strip_def)
qed

lemma split_sign_numeric:
  assumes "digits1 ds"
  shows "split_sign (sign_text neg @ ds @ fs) = (neg, ds @ fs)"
proof (cases neg)
  case True
  then show ?thesis by (simp add: sign_text_def)
next
  case False
  from digits1_ends[OF assms] obtain d ds' where "ds = d # ds'" "isdecimal d"
    by (cases ds) auto
  moreover from this have "d \<noteq> 45" "d \<noteq> 43" by auto
  ultimately show ?thesis using False by (simp add: sign_text_def)
qed

lemma float_parts_numeric:
  assumes "digits1 ds" "fraction_ok fs"
  shows "float_parts neg ds fs =
         Inr (signed_double neg (digits_value (ds @ tl fs)) (length (tl fs)))"
  using assms by (cases fs) (auto simp: digits1_def)

lemma py_float_parts:
  assumes "digits1 ds" "fraction_ok fs" "strip s = sign_text neg @ ds @ fs"
  shows "py_float s =
         Inr (signed_double neg (digits_value (ds @ tl fs)) (length (tl fs)))"
  using assms
  by (simp add: py_float_def float_body_def split_sign_numeric digits_then_fraction
      digits1_def float_parts_numeric)

lemma unsigned_part_numeric:
  assumes "digits1 ds"
  shows "unsigned_part (sign_text neg @ ds @ fs) = ds @ fs"
    and "(unsigned_part (sign_text neg @ ds @ fs) \<noteq> sign_text neg @ ds @ fs) = neg"
proof -
  from digits1_ends[OF assms] obtain d ds' where d: "ds = d # ds'" "isdecimal d"
    by (cases ds) auto
  then have "d \<noteq> 45" by auto
  with d show "unsigned_part (sign_text neg @ ds @ fs) = ds @ fs"
    by (simp add: sign_text_def)
  then show "(unsigned_part (sign_text neg @ ds @ fs) \<noteq> sign_text neg @ ds @ fs) = neg"
    by (simp add: sign_text_def)
qed

lemma fraction_tail:
  assumes "fraction_ok fs"
  shows "takeWhile isdecimal (tl fs) = tl fs"
    and "takeWhile isdecimal (tl (fs @ [10])) = tl fs"
    and "takeWhile isdecimal (fs @ [10]) = []"
    and "dropWhile isdecimal (fs @ [10]) = fs @ [10]"
  using assms
  by (cases fs; simp add: digits1_def list_all_iff takeWhile_append2)+

lemma number_of_parts:
  assumes "digits1 ds" "fraction_ok fs"
  shows "number_of (sign_text neg @ ds @ fs) =
           signed_double neg (digits_value (ds @ tl fs)) (length (tl fs))"
    and "number_of ((sign_text neg @ ds @ fs) @ [10]) =
           signed_double neg (digits_value (ds @ tl fs)) (length (tl fs))"
proof -
  show "number_of (sign_text neg @ ds @ fs) =
           signed_double neg (digits_value (ds @ tl fs)) (length (tl fs))"
    using assms
    by (simp add: number_of_def whole_digits_def fraction_digits_def unsigned_part_numeric
        digits_then_fraction digits1_def fraction_tail)
  have all: "\<forall>c\<in>set ds. isdecimal c" using assms(1) by (simp add: digits1_def list_all_iff)
  have "unsigned_part (sign_text neg @ ds @ (fs @ [10])) = ds @ (fs @ [10])"
    "(unsigned_part (sign_text neg @ ds @ (fs @ [10])) \<noteq> sign_text neg @ ds @ (fs @ [10])) = neg"
    using unsigned_part_numeric[OF assms(1), of neg "fs @ [10]"] by simp_all
  then show "number_of ((sign_text neg @ ds @ fs) @ [10]) =
           signed_double neg (digits_value (ds @ tl fs)) (length (tl fs))"
    using all fraction_tail[OF assms(2)]
    by (simp add: number_of_def whole_digits_def fraction_digits_def
        takeWhile_append2 dropWhile_append2)
qed

lemma py_float_numeric:
  assumes "numeric_text v"
  shows "py_float v = Inr (number_of v)"
proof -
  from assms consider (plain) "strict_numeric v"
    | (lf) s where "v = s @ [10]" "strict_numeric s"
    unfolding numeric_text_def by (metis append_butlast_last_id)
  then show ?thesis
  proof cases
    case plain
    then obtain neg ds fs where p: "v = sign_text neg @ ds @ fs" "digits1 ds" "fraction_ok fs"
      by (rule strict_numeric_parts)
    have "strip v = v"
      unfolding p(1) using numeric_ends[OF p(2,3)] by (rule strip_clean)
    with p show ?thesis
      using py_float_parts[OF p(2,3), of v neg] number_of_parts(1)[OF p(2,3), of neg] by simp
  next
    case lf
    then obtain neg ds fs where p: "s = sign_text neg @ ds @ fs" "digits1 ds" "fraction_ok fs"
      using strict_numeric_parts by blast
    have "strip (s @ [10]) = s"
      unfolding p(1) using numeric_ends[OF p(2,3)] by (rule strip_line_feed)
    with p lf(1) show ?thesis
      using py_float_parts[OF p(2,3), of v neg] number_of_parts(2)[OF p(2,3), of neg] by simp
  qed
qed

lemma to_number_parsed: "to_number v = Inr (parsed v)"
  by (simp add: to_number_def parsed_def is_valid_number_iff py_float_numeric)

lemma set_strip: "set (strip t) \<subseteq> set t"
proof
  fix c assume "c \<in> set (strip t)"
  then have "c \<in> set (dropWhile isspace (rev (dropWhile isspace t)))"
    by (simp add: strip_def)
  then have "c \<in> set (rev (dropWhile isspace t))" by (rule set_dropWhileD)
  then have "c \<in> set (dropWhile isspace t)" by simp
  then show "c \<in> set t" by (rule set_dropWhileD)
qed

lemma replace_filter: "replace c [] s = filter (\<lambda>x. x \<noteq> c) s"
  by (induction s) (simp_all add: replace_def)

lemma ratio_text_symbols: "ratio_text t = strip_symbols [8377, 37, 44] t"
  by (auto simp: ratio_text_def strip_symbols_def replace_filter intro: filter_cong)

lemma table_text_symbols: "table_text t = strip_symbols [44, 45, 32] t"
  by (auto simp: table_text_def strip_symbols_def replace_filter intro: filter_cong)


section \<open>C1: the parsing rule\<close>

lemma ratio_examples:
  "ratio_value (u ''1,234.50'') = Inr (PyFloat (nearest_double 123450 100))"
  "ratio_value (8377 # u ''45.2%'') = Inr (PyFloat (nearest_double 452 10))"
  "ratio_value (u ''-'') = Inr NA"
  "ratio_value (u ''-123.4'') = Inr (PyFloat (nearest_double (- 1234) 10))"
  by (simp_all add: ratio_value_def ratio_text_def text_eval number_eval)

lemma table_examples:
  "table_value (u ''1,234.50'') = Inr (PyFloat (nearest_double 123450 100))"
  "table_value (u ''-'') = Inr NA"
  by (simp_all add: table_value_def table_text_def text_eval number_eval)

text \<open>
  The statement-table parser removes the hyphens, the leading one as well, before the
  pattern is tried: a negative cell is read as the positive number.
\<close>

lemma table_value_sign:
  "table_value (u ''-123.4'') = Inr (PyFloat (nearest_double 1234 10))"
  by (simp add: table_value_def table_text_def text_eval number_eval)

text \<open>
  A line feed that normalization leaves at the end of the text is let through by \<open>$\<close>.
\<close>

lemma ratio_line_feed:
  "ratio_value (u ''12'' @ [10, 37]) = Inr (PyFloat (nearest_double 12 1))"
  by (simp add: ratio_value_def ratio_text_def text_eval number_eval)

text \<open>
  C1, as the claim states it, fails for the text of a statement-table cell: line 34
  removes commas, hyphens and spaces, but neither the rupee sign nor the percent sign,
  so \<open>45.2%\<close> after a rupee sign (code point 8377) is not read as 45.2 there.
\<close>

theorem table_value_keeps_symbols:
  "table_value (8377 # u ''45.2%'') = Inr NA \<and>
   table_value (8377 # u ''45.2%'') \<noteq> Inr (PyFloat (nearest_double 452 10))"
  by (simp add: table_value_def table_text_def text_eval number_eval)

text \<open>
  C1 (amended). The program has two parsers, with two normalizations.
  For a ratio value the text is normalized by dropping the white space at its ends and
  every rupee sign, percent sign and comma; the result is \<open>"N/A"\<close> when the normalized
  text is not a strict numeric text (optionally followed by one line feed), and the
  number it denotes when it is; no exception is raised. So \<open>1,234.50\<close> gives 1234.50,
  \<open>45.2%\<close> after a rupee sign gives 45.2, \<open>-\<close> gives \<open>"N/A"\<close> and \<open>-123.4\<close> gives -123.4.
  For a statement-table cell that holds no hyphen the text is normalized by dropping
  the white space at its ends and every comma and space, with the same rule after
  that; \<open>1,234.50\<close> gives 1234.50.
\<close>

theorem parsing_rule:
  "ratio_value t = Inr (parsed (strip_symbols [8377, 37, 44] t)) \<and>
   (45 \<notin> set t \<longrightarrow> table_value t = Inr (parsed (strip_symbols [44, 32] t))) \<and>
   ratio_value (u ''1,234.50'') = Inr (PyFloat (nearest_double 123450 100)) \<and>
   ratio_value (8377 # u ''45.2%'') = Inr (PyFloat (nearest_double 452 10)) \<and>
   ratio_value (u ''-'') = Inr NA \<and>
   ratio_value (u ''-123.4'') = Inr (PyFloat (nearest_double (- 1234) 10)) \<and>
   table_value (u ''1,234.50'') = Inr (PyFloat (nearest_double 123450 100))"
proof -
  have "ratio_value t = Inr (parsed (strip_symbols [8377, 37, 44] t))"
    by (simp add: ratio_value_def to_number_parsed ratio_text_symbols)
  moreover have "table_value t = Inr (parsed (strip_symbols [44, 32] t))" if "45 \<notin> set t"
  proof -
    have "45 \<notin> set (strip t)"
      using that set_strip by blast
    then have "strip_symbols [44, 45, 32] t = strip_symbols [44, 32] t"
      by (auto simp: strip_symbols_def intro: filter_cong)
    then show ?thesis
      by (simp add: table_value_def to_number_parsed table_text_symbols)
  qed
  ultimately show ?thesis
    using ratio_examples table_examples(1) by blast
qed

theorem parsing_rule_witness:
  "45 \<notin> set (u ''1,234.50'') \<and>
   table_value (u ''1,234.50'') = Inr (parsed (strip_symbols [44, 32] (u ''1,234.50''))) \<and>
   parsed (strip_symbols [44, 32] (u ''1,234.50'')) = PyFloat (nearest_double 123450 100)"
proof -
  have h: "45 \<notin> set (u ''1,234.50'')" by (simp add: u_def)
  from parsing_rule [of "u ''1,234.50''"] h
  have "table_value (u ''1,234.50'') = Inr (parsed (strip_symbols [44, 32] (u ''1,234.50'')))"
    by blast
  with h table_examples(1) show ?thesis by simp
qed

section \<open>C4: the symbol resolver\<close>

lemmas resolve_eval = resolve_def SYMBOL_MAP_def

text \<open>
  C4, as the claim states it, fails for a name with white space other than the space
  character inside it: line 119 removes the space characters only. A name with a
  no-break space (code point 160) between two words keeps it in the market-data
  symbol.
\<close>

theorem resolve_keeps_other_whitespace:
  "fst (resolve (u ''TATA'' @ [160] @ u ''MOTORS'')) = u ''TATA'' @ [160] @ u ''MOTORS.NS'' \<and>
   fst (resolve (u ''TATA'' @ [160] @ u ''MOTORS'')) \<noteq>
     without_whitespace (u ''TATA'' @ [160] @ u ''MOTORS'') @ u ''.NS''"
  by (simp add: resolve_eval without_whitespace_def text_eval)

text \<open>
  C4 (amended). The resolver is a total function of the name. For every entry of the
  override table it returns the configured pair: \<open>INFOSYS\<close>, \<open>HDFC\<close> and \<open>L&T\<close> give
  \<open>(INFY.NS, INFOSYS)\<close>, \<open>(HDFCBANK.NS, HDFCBANK)\<close> and \<open>(LT.NS, LT)\<close>. For every other
  name it returns the name with every space character (code point 32) removed and
  \<open>.NS\<close> appended, and the name itself as the fundamentals identifier.
\<close>

theorem resolve_rule:
  "((k, e) \<in> set SYMBOL_MAP \<longrightarrow> resolve k = (yfinance e, screener_name e)) \<and>
   resolve (u ''INFOSYS'') = (u ''INFY.NS'', u ''INFOSYS'') \<and>
   resolve (u ''HDFC'') = (u ''HDFCBANK.NS'', u ''HDFCBANK'') \<and>
   resolve (u ''L&T'') = (u ''LT.NS'', u ''LT'') \<and>
   (n \<notin> {u ''INFOSYS'', u ''HDFC'', u ''L&T''} \<longrightarrow>
      resolve n = (filter (\<lambda>c. c \<noteq> 32) n @ u ''.NS'', n))"
proof -
  have keys: "distinct (map fst SYMBOL_MAP)"
    by (simp add: SYMBOL_MAP_def u_def)
  have "resolve k = (yfinance e, screener_name e)" if "(k, e) \<in> set SYMBOL_MAP"
    using map_of_is_SomeI[OF keys that] by (simp add: resolve_def)
  moreover have "resolve n = (filter (\<lambda>c. c \<noteq> 32) n @ u ''.NS'', n)"
    if "n \<notin> {u ''INFOSYS'', u ''HDFC'', u ''L&T''}"
    using that by (simp add: resolve_eval replace_filter)
  moreover have "resolve (u ''INFOSYS'') = (u ''INFY.NS'', u ''INFOSYS'')"
    "resolve (u ''HDFC'') = (u ''HDFCBANK.NS'', u ''HDFCBANK'')"
    "resolve (u ''L&T'') = (u ''LT.NS'', u ''LT'')"
    by (simp_all add: resolve_eval u_def)
  ultimately show ?thesis by blast
qed

theorem resolve_rule_witness:
  "(u ''HDFC'', \<lparr>yfinance = u ''HDFCBANK.NS'', screener_name = u ''HDFCBANK''\<rparr>) \<in> set SYMBOL_MAP \<and>
   resolve (u ''HDFC'') = (u ''HDFCBANK.NS'', u ''HDFCBANK'') \<and>
   u ''TATA MOTORS'' \<notin> {u ''INFOSYS'', u ''HDFC'', u ''L&T''} \<and>
   resolve (u ''TATA MOTORS'') = (u ''TATAMOTORS.NS'', u ''TATA MOTORS'')"
proof -
  have a: "(u ''HDFC'', \<lparr>yfinance = u ''HDFCBANK.NS'', screener_name = u ''HDFCBANK''\<rparr>) \<in> set SYMBOL_MAP"
    by (simp add: SYMBOL_MAP_def)
  have b: "u ''TATA MOTORS'' \<notin> {u ''INFOSYS'', u ''HDFC'', u ''L&T''}"
    by (simp add: u_def)
  have c: "filter (\<lambda>c. c \<noteq> 32) (u ''TATA MOTORS'') @ u ''.NS'' = u ''TATAMOTORS.NS''"
    by (simp add: u_def)
  from resolve_rule [of "u ''HDFC''" "\<lparr>yfinance = u ''HDFCBANK.NS'', screener_name = u ''HDFCBANK''\<rparr>"
      "u ''TATA MOTORS''"] a b c
  show ?thesis by simp
qed

section \<open>Doubles within range\<close>

lemma bitlen_le: "n < 2 ^ k \<Longrightarrow> bitlen n \<le> k"
proof (induction k arbitrary: n)
  case 0
  then show ?case by (simp add: bitlen.simps)
next
  case (Suc k)
  show ?case
  proof (cases "n = 0")
    case True
    then show ?thesis by (simp add: bitlen.simps)
  next
    case False
    from Suc.prems have "n div 2 < 2 ^ k" by simp
    then have "bitlen (n div 2) \<le> k" by (rule Suc.IH)
    with False show ?thesis by (subst bitlen.simps) simp
  qed
qed

lemma scale2_pos: "0 < d \<Longrightarrow> 0 < snd (scale2 n d e)"
  by (simp add: scale2_def)

lemma scale2_nonneg: "0 \<le> n \<Longrightarrow> 0 \<le> fst (scale2 n d e)"
  by (simp add: scale2_def)

lemma scale2_value:
  assumes "0 < d"
  shows "real_of_int (fst (scale2 n d e)) / real_of_int (snd (scale2 n d e)) =
         real_of_int n / real_of_int d * 2 powi (- e)"
proof (cases "0 \<le> e")
  case True
  then obtain k where k: "e = int k" by (metis nonneg_int_cases)
  have "2 powi (- e) = inverse ((2::real) ^ k)"
    unfolding k by (simp add: power_int_minus)
  with True k show ?thesis by (simp add: scale2_def divide_simps)
next
  case False
  then obtain k where k: "- e = int k" by (metis nonneg_int_cases neg_0_le_iff_le linear)
  have "2 powi (- e) = (2::real) ^ k"
    unfolding k by simp
  with False k show ?thesis by (simp add: scale2_def)
qed

lemma round_half_even_bounds:
  assumes "0 \<le> n" "0 < d"
  shows "0 \<le> round_half_even n d"
    and "real_of_int (round_half_even n d) \<le> real_of_int n / real_of_int d + 1"
proof -
  have q: "0 \<le> n div d" using assms by (simp add: pos_imp_zdiv_nonneg_iff)
  have "real_of_int (n div d) \<le> real_of_int n / real_of_int d"
    by (rule real_of_int_div4)
  moreover have "round_half_even n d = n div d \<or> round_half_even n d = n div d + 1"
    by (simp add: round_half_even_def tie_even_def)
  ultimately show "0 \<le> round_half_even n d"
    and "real_of_int (round_half_even n d) \<le> real_of_int n / real_of_int d + 1"
    using q by auto
qed


lemma floor_log2_le: "floor_log2 p b \<le> int (bitlen (nat p))"
  by (simp add: floor_log2_def lower_exp_def)

lemma quantum_le: "e \<le> k \<Longrightarrow> - 1022 \<le> k \<Longrightarrow> quantum e \<le> k - 52"
  by (simp add: quantum_def)

lemma exponent_small:
  assumes "p < 2 ^ k" "0 \<le> p"
  shows "quantum (floor_log2 p b) \<le> int k - 52"
proof -
  have "nat p < 2 ^ k" using assms by (simp add: nat_less_iff)
  then have "bitlen (nat p) \<le> k" by (rule bitlen_le)
  then have "floor_log2 p b \<le> int k" using floor_log2_le [of p b] by linarith
  then show ?thesis by (rule quantum_le) simp
qed

lemma make_double_finite:
  assumes "x \<le> 971" "0 \<le> n"
  shows "\<exists>m e. make_double neg n x = Finite m e \<and>
               real_of_int \<bar>m\<bar> * 2 powi e = real_of_int n * 2 powi x"
  using assms by (simp add: make_double_def)

lemma carry_finite:
  assumes "x \<le> 970" "0 \<le> n"
  shows "\<exists>m e. carry neg n x = Finite m e \<and>
               real_of_int \<bar>m\<bar> * 2 powi e = real_of_int n * 2 powi x"
proof (cases "n = 2 ^ 53")
  case True
  have "(2::real) powi (x + 1) = 2 powi x * 2"
    by (simp add: power_int_add)
  then have "real_of_int (2 ^ 52) * 2 powi (x + 1) = real_of_int (2 ^ 53) * 2 powi x"
    by simp
  moreover from assms(1) have "x + 1 \<le> 971" by simp
  from make_double_finite [OF this, of "2 ^ 52" neg]
  obtain m e where "make_double neg (2 ^ 52) (x + 1) = Finite m e"
    "real_of_int \<bar>m\<bar> * 2 powi e = real_of_int (2 ^ 52) * 2 powi (x + 1)"
    by auto
  ultimately show ?thesis using True by (simp add: carry_def)
next
  case False
  from assms(1) have "x \<le> 971" by simp
  from make_double_finite [OF this assms(2), of neg] False
  show ?thesis by (simp add: carry_def)
qed

lemma round_at_bounds:
  assumes "0 \<le> p" "0 < b"
  shows "0 \<le> round_at p b x"
    and "real_of_int (round_at p b x) * 2 powi x \<le> real_of_int p / real_of_int b + 2 powi x"
proof -
  note s = scale2_nonneg [OF assms(1), of b x] scale2_pos [OF assms(2), of p x]
  show "0 \<le> round_at p b x"
    unfolding round_at_def by (rule round_half_even_bounds(1) [OF s])
  have "real_of_int (round_at p b x) \<le> real_of_int p / real_of_int b * 2 powi (- x) + 1"
    unfolding round_at_def
    using round_half_even_bounds(2) [OF s] scale2_value [OF assms(2), of p x] by simp
  then have "real_of_int (round_at p b x) * 2 powi x \<le>
        (real_of_int p / real_of_int b * 2 powi (- x) + 1) * 2 powi x"
    by (rule mult_right_mono) simp
  also have "\<dots> = real_of_int p / real_of_int b * (2 powi (- x) * 2 powi x) + 2 powi x"
    by (simp add: algebra_simps)
  also have "(2::real) powi (- x) * 2 powi x = 1"
    by (simp add: power_int_minus)
  finally show "real_of_int (round_at p b x) * 2 powi x \<le>
        real_of_int p / real_of_int b + 2 powi x"
    by simp
qed

lemma nearest_double_value:
  assumes "\<bar>a\<bar> < 2 ^ k" "k \<le> 1022" "0 < b"
  shows "\<exists>m e. nearest_double a b = Finite m e \<and>
           real_of_int \<bar>m\<bar> * 2 powi e \<le>
             real_of_int \<bar>a\<bar> / real_of_int b + 2 powi (int k - 52)"
proof (cases "a = 0")
  case True
  then show ?thesis by (simp add: nearest_double_def)
next
  case False
  let ?x = "quantum (floor_log2 \<bar>a\<bar> b)"
  have x: "?x \<le> int k - 52"
    using assms(1) by (intro exponent_small) simp_all
  with assms(2) have "?x \<le> 970" by simp
  from carry_finite [OF this round_at_bounds(1) [of "\<bar>a\<bar>" b ?x], of "a < 0"] assms(3)
  obtain m e where m: "carry (a < 0) (round_at \<bar>a\<bar> b ?x) ?x = Finite m e"
    "real_of_int \<bar>m\<bar> * 2 powi e = real_of_int (round_at \<bar>a\<bar> b ?x) * 2 powi ?x"
    by auto
  have "(2::real) powi ?x \<le> 2 powi (int k - 52)"
    using x by (intro power_int_increasing) simp_all
  with round_at_bounds(2) [of "\<bar>a\<bar>" b ?x] assms(3) m(2)
  have "real_of_int \<bar>m\<bar> * 2 powi e \<le> real_of_int \<bar>a\<bar> / real_of_int b + 2 powi (int k - 52)"
    by simp
  with m(1) False show ?thesis
    by (simp add: nearest_double_def nearest_at_def)
qed

lemma nearest_double_finite:
  assumes "\<bar>a\<bar> < 2 ^ 1022" "0 < b"
  shows "\<exists>m e. nearest_double a b = Finite m e"
  using nearest_double_value [OF assms(1) _ assms(2)] by auto

lemma hundredths_bounds:
  "0 \<le> hundredths m e"
  "real_of_int (hundredths m e) \<le> 100 * (real_of_int \<bar>m\<bar> * 2 powi e) + 1"
proof -
  have p: "0 \<le> \<bar>m\<bar> * 100" "(0::int) < 1" by simp_all
  note s = scale2_nonneg [OF p(1), of 1 "- e"] scale2_pos [OF p(2), of "\<bar>m\<bar> * 100" "- e"]
  show "0 \<le> hundredths m e"
    unfolding hundredths_def by (rule round_half_even_bounds(1) [OF s])
  show "real_of_int (hundredths m e) \<le> 100 * (real_of_int \<bar>m\<bar> * 2 powi e) + 1"
    unfolding hundredths_def
    using round_half_even_bounds(2) [OF s] scale2_value [OF p(2), of "\<bar>m\<bar> * 100" "- e"]
    by simp
qed

lemma round2_finite:
  assumes "real_of_int \<bar>m\<bar> * 2 powi e \<le> 2 ^ 1001"
  shows "\<exists>m' e'. round2 (Finite m e) = Inr (Finite m' e')"
proof -
  let ?h = "hundredths m e"
  have "real_of_int ?h \<le> 100 * 2 ^ 1001 + 1"
    using hundredths_bounds(2) [of m e] assms by linarith
  also have "\<dots> < real_of_int (2 ^ 1022)" by simp
  finally have "?h < 2 ^ 1022" by (simp only: of_int_less_iff)
  with hundredths_bounds(1) [of m e]
  have "\<bar>if m < 0 then - ?h else ?h\<bar> < 2 ^ 1022" by simp
  from nearest_double_finite [OF this, of 100]
  obtain m' e' where "nearest_double (if m < 0 then - ?h else ?h) 100 = Finite m' e'"
    by auto
  then show ?thesis by simp
qed

lemma market_cap_int_finite:
  assumes "\<bar>n\<bar> < 2 ^ 1000"
  shows "\<exists>m e. market_cap_of (PyInt n) = Inr (Finite m e)"
proof -
  from nearest_double_value [OF assms, of 10000000]
  obtain m e where m: "nearest_double n 10000000 = Finite m e"
    "real_of_int \<bar>m\<bar> * 2 powi e \<le> real_of_int \<bar>n\<bar> / 10000000 + 2 powi (int 1000 - 52)"
    by auto
  have "real_of_int \<bar>n\<bar> < 2 ^ 1000"
    using assms by (metis of_int_less_iff of_int_numeral of_int_power)
  then have "real_of_int \<bar>n\<bar> / 10000000 \<le> 2 ^ 1000" by simp
  moreover have "(2::real) powi (int 1000 - 52) \<le> 2 ^ 1000"
    by simp
  ultimately have "real_of_int \<bar>m\<bar> * 2 powi e \<le> 2 ^ 1001"
    using m(2) by simp
  from round2_finite [OF this] m(1) show ?thesis
    by (simp add: market_cap_of_def int_truediv_def)
qed

section \<open>C5: the market capitalization\<close>

lemmas cap_eval = market_data_def cap_step_def dict_get_def market_cap_of_def int_truediv_def
  hundredths_def

lemma market_cap_example: "market_cap_of (PyInt 123456789) = Inr (nearest_double 1235 100)"
  by (simp add: market_cap_of_def int_truediv_def hundredths_def double_eval)

text \<open>
  C5, as the claim states it, fails for an integer so large that the division of line
  133 overflows: \<open>OverflowError\<close> is caught by line 134 and the market cap stays
  \<open>"N/A"\<close> (with the warning of line 135), although the raw value is numeric.
\<close>

theorem market_cap_overflow:
  "is_int_or_float (PyInt (10000000 * 2 ^ 1024)) \<and>
   market_data (Inr (quote (PyInt 100) (PyInt (10000000 * 2 ^ 1024)))) = (PyInt 100, NA, True)"
  by (simp add: cap_eval quote_def u_def double_eval)

text \<open>
  C5 (amended). When the quote cannot be fetched, or has no market capitalization, or
  has one that is neither an \<open>int\<close> nor a \<open>float\<close>, the normalized market cap is
  \<open>"N/A"\<close>. When the raw value is an \<open>int\<close> (a \<open>bool\<close> counts) or a \<open>float\<close>, it is
  \<open>round(raw / 10000000, 2)\<close> whenever that expression has a value, and \<open>"N/A"\<close>
  when its evaluation raises. It has a value, a finite one, for every integer below
  \<open>2 ^ 1000\<close> in magnitude. 123456789 gives 12.35.
\<close>

theorem market_cap_rule:
  "market_cap_cr (Inl x) = NA \<and>
   (d (u ''marketCap'') = None \<longrightarrow> market_cap_cr (Inr d) = NA) \<and>
   (d (u ''marketCap'') = Some raw \<and> \<not> is_int_or_float raw \<longrightarrow> market_cap_cr (Inr d) = NA) \<and>
   (d (u ''marketCap'') = Some raw \<and> is_int_or_float raw \<and> market_cap_of raw = Inr f \<longrightarrow>
      market_cap_cr (Inr d) = PyFloat f) \<and>
   (d (u ''marketCap'') = Some raw \<and> is_int_or_float raw \<and> market_cap_of raw = Inl x \<longrightarrow>
      market_cap_cr (Inr d) = NA) \<and>
   (\<bar>n\<bar> < 2 ^ 1000 \<longrightarrow> (\<exists>m e. market_cap_of (PyInt n) = Inr (Finite m e))) \<and>
   market_cap_of (PyInt 123456789) = Inr (nearest_double 1235 100)"
  using market_cap_int_finite [of n]
  by (simp add: market_cap_cr_def market_data_def cap_step_def dict_get_def market_cap_example
      NA_def u_def)

theorem market_cap_rule_witness:
  "\<bar>123456789 :: int\<bar> < 2 ^ 1000 \<and>
   quote (PyInt 100) (PyInt 123456789) (u ''marketCap'') = Some (PyInt 123456789) \<and>
   is_int_or_float (PyInt 123456789) \<and>
   market_cap_of (PyInt 123456789) = Inr (nearest_double 1235 100) \<and>
   market_cap_cr (Inr (quote (PyInt 100) (PyInt 123456789))) = PyFloat (nearest_double 1235 100)"
proof -
  have a: "quote (PyInt 100) (PyInt 123456789) (u ''marketCap'') = Some (PyInt 123456789)"
    by (simp add: quote_def u_def)
  from market_cap_rule [where d = "quote (PyInt 100) (PyInt 123456789)"
      and raw = "PyInt 123456789" and f = "nearest_double 1235 100" and n = 123456789]
    a market_cap_example
  show ?thesis by simp
qed

section \<open>C3: the ratio list\<close>

lemma ratio_value_parsed: "ratio_value t = Inr (parsed (strip_symbols [8377, 37, 44] t))"
  by (simp add: ratio_value_def to_number_parsed ratio_text_symbols)


lemma pe_entry_result: "pe_entry li = Inr (entry_result li)"
  by (simp add: pe_entry_def entry_result_def pe_assign_def pe_name_def label_matches_def
      ratio_of_entry_def ratio_value_parsed split: option.splits)

lemma last_or_append: "last_or (ms @ ns) pe = last_or ns (last_or ms pe)"
  by (simp add: last_or_def)

lemma entry_texts_short: "length (entry_texts li) \<le> 1"
  by (simp split: option.splits)

lemma entry_result_last_or:
  "(case entry_result li of None \<Rightarrow> pe | Some v \<Rightarrow> v) =
   last_or (filter label_matches (entry_texts li)) pe"
proof -
  obtain xs where xs: "entry_texts li = xs" "length xs \<le> 1"
    using entry_texts_short by blast
  then have "xs = [] \<or> (\<exists>e. xs = [e])"
    by (cases xs) auto
  with xs(1) show ?thesis
    by (auto simp: entry_result_def last_or_def simp del: entry_texts.simps)
qed

lemma pe_loop_last:
  "pe_loop pe_entry lis pe =
   (last_or (filter label_matches (concat (map entry_texts lis))) pe, None)"
proof (induction lis arbitrary: pe)
  case Nil
  then show ?case by (simp add: last_or_def)
next
  case (Cons li lis)
  have "pe_loop pe_entry (li # lis) pe =
        pe_loop pe_entry lis (case entry_result li of None \<Rightarrow> pe | Some v \<Rightarrow> v)"
    by (simp add: pe_entry_result split: option.splits)
  then show ?case
    by (simp add: Cons.IH entry_result_last_or last_or_append del: entry_texts.simps)
qed

lemma extract_pe_last: "extract_pe pe_entry soup NA = (pe_of soup, None)"
  by (simp add: extract_pe_def pe_of_def last_match_ratio_def pe_loop_last last_or_def
      matching_entries_def ratio_entries_def split: option.splits)

lemmas doc_eval = BeautifulSoup_def ratio_li_def ratios_div_def td_def profit_loss_def
  descendants_def find_all_def find_class_def first_def select_ratio_list_def
  select_section_table_def find_row_cell_def

lemmas extract_eval = extract_pe_def pe_entry_def pe_assign_def pe_name_def extract_both_def
  extract_table_value_with_def extract_table_value_def table_body_def last_cell_value_def
  ratio_value_def ratio_text_def table_value_def table_text_def

lemmas word_eval = word_search_def word_match_at_def boundary_def word_at_def
  same_letters_def isword_def upt_rec

lemma page_two_pe:
  "extract_pe pe_entry page_two NA = (PyFloat (nearest_double 301 10), None)"
  by (simp add: page_two_def doc_eval extract_eval text_eval number_eval)

lemma page_two_list:
  "select_ratio_list page_two =
     Some (Tag (u ''ul'') (Some (u ''top-ratios'')) []
             [ratio_li ''Stock P/E'' ''25.3'', ratio_li ''Industry P/E'' ''30.1''])"
  by (simp add: page_two_def BeautifulSoup_def ratios_div_def select_ratio_list_def first_def u_def)

lemma page_two_matching:
  "matching_entries (Tag (u ''ul'') (Some (u ''top-ratios'')) []
             [ratio_li ''Stock P/E'' ''25.3'', ratio_li ''Industry P/E'' ''30.1'']) =
   [(u ''Stock P/E'', u ''25.3''), (u ''Industry P/E'', u ''30.1'')]"
  by (simp add: matching_entries_def ratio_entries_def label_matches_def doc_eval text_eval)

lemma page_two_first: "first_match_pe page_two = PyFloat (nearest_double 253 10)"
proof -
  have "ratio_value (u ''25.3'') = Inr (PyFloat (nearest_double 253 10))"
    by (simp add: ratio_value_def ratio_text_def text_eval number_eval)
  then have "parsed (strip_symbols [8377, 37, 44] (u ''25.3'')) = PyFloat (nearest_double 253 10)"
    by (simp add: ratio_value_parsed)
  then show ?thesis
    by (simp add: first_match_pe_def first_match_ratio_def page_two_list page_two_matching
        ratio_of_entry_def)
qed

lemma doubles_differ: "nearest_double 301 10 \<noteq> nearest_double 253 10"
  by (simp add: double_eval)

text \<open>
  C3, as the claim states it, fails on a ratio list with two entries whose labels have
  \<open>P/E\<close> in them: the loop of lines 57 to 65 does not stop at a match, so the value of
  the last one, 30.1, is the result, not that of the first, 25.3.
\<close>

theorem last_match_wins:
  "fst (extract_pe pe_entry page_two NA) = PyFloat (nearest_double 301 10) \<and>
   first_match_pe page_two = PyFloat (nearest_double 253 10) \<and>
   fst (extract_pe pe_entry page_two NA) \<noteq> first_match_pe page_two"
  using doubles_differ by (simp add: page_two_pe page_two_first)

text \<open>
  C3 (amended). For every document, the P/E extraction raises nothing and gives: \<open>"N/A"\<close>
  when the document has no ratio list; otherwise, among the entries of the list that
  have a name and a value, those whose label (white space at the ends dropped, line
  feeds as spaces, upper case) has \<open>P/E\<close> in it are the matching ones; \<open>"N/A"\<close> when
  there is none, and else what the value text of the last matching entry parses to
  with rupee signs, percent signs and commas dropped (\<open>"N/A"\<close> when it is not numeric).
\<close>

theorem ratio_last_match:
  "extract_pe pe_entry soup NA = (pe_of soup, None) \<and>
   (select_ratio_list soup = None \<longrightarrow> pe_of soup = NA) \<and>
   (select_ratio_list soup = Some ul \<and> matching_entries ul = [] \<longrightarrow> pe_of soup = NA) \<and>
   (select_ratio_list soup = Some ul \<and> matching_entries ul \<noteq> [] \<longrightarrow>
      pe_of soup = parsed (strip_symbols [8377, 37, 44] (snd (last (matching_entries ul)))))"
  by (simp add: extract_pe_last pe_of_def last_match_ratio_def ratio_of_entry_def)

theorem ratio_last_match_witness:
  "select_ratio_list page_two =
     Some (Tag (u ''ul'') (Some (u ''top-ratios'')) []
             [ratio_li ''Stock P/E'' ''25.3'', ratio_li ''Industry P/E'' ''30.1'']) \<and>
   matching_entries (Tag (u ''ul'') (Some (u ''top-ratios'')) []
             [ratio_li ''Stock P/E'' ''25.3'', ratio_li ''Industry P/E'' ''30.1'']) \<noteq> [] \<and>
   extract_pe pe_entry page_two NA = (parsed (u ''30.1''), None)"
proof -
  have "strip_symbols [8377, 37, 44] (u ''30.1'') = u ''30.1''"
    by (simp add: strip_symbols_def text_eval)
  with ratio_last_match [of page_two "Tag (u ''ul'') (Some (u ''top-ratios'')) []
             [ratio_li ''Stock P/E'' ''25.3'', ratio_li ''Industry P/E'' ''30.1'']"]
  show ?thesis by (simp add: page_two_list page_two_matching)
qed

section \<open>C2: the two fields of a page\<close>

lemma page_one_values:
  "extract_both pe_entry table_value page_one =
     \<lparr>pe_ratio = PyFloat (nearest_double 253 10), interest = PyFloat (nearest_double 5 1)\<rparr>"
  by (simp add: page_one_def doc_eval extract_eval text_eval number_eval word_eval)




text \<open>
  Where the handlers are. \<open>extract_table_value\<close> has a handler of its own (lines 25
  and 38); the loop of lines 57 to 65 has none and runs under the handler of the
  fetcher (line 70), before line 68. For a loop body and a cell conversion that are
  not the program's own: an exception of the conversion leaves the P/E as the loop
  gave it, and an exception of the loop body leaves the interest \<open>"N/A"\<close>. That the
  two fields do not touch each other therefore rests on the loop body of the program
  raising on no document, which \<open>pe_entry_result\<close> and \<open>extract_pe_last\<close> show.
\<close>

lemma handlers:
  "table_body conv soup (u ''profit-loss'') (u ''Interest'') = Inl e \<Longrightarrow>
     extract_pe body soup NA = (pe, None) \<Longrightarrow>
     extract_both body conv soup = \<lparr>pe_ratio = pe, interest = NA\<rparr>"
  "extract_pe body soup NA = (pe, Some e) \<Longrightarrow>
     extract_both body conv soup = \<lparr>pe_ratio = pe, interest = NA\<rparr>"
  by (simp_all add: extract_both_def extract_table_value_with_def)










section \<open>C6: the fundamentals fetcher\<close>

lemma screener_url:
  "url (screener_request name) =
     u ''https://www.screener.in/company/''
     @ concat (map (\<lambda>c. if c = 32 then u ''-'' else if c = 38 then u ''%26'' else [c]) name)
     @ u ''/consolidated/''"
proof -
  have "replace 38 (u ''%26'') (replace 32 (u ''-'') s) =
        concat (map (\<lambda>c. if c = 32 then u ''-'' else if c = 38 then u ''%26'' else [c]) s)" for s
    by (induction s) (simp_all add: replace_def u_def)
  then show ?thesis by (simp add: screener_request_def)
qed

text \<open>
  C6. A fetch fails when \<open>requests.get\<close> raises (a timeout, a connection error), when
  the status is one \<open>raise_for_status\<close> rejects (400 to 599), or when the parser
  raises: the result is then \<open>"N/A"\<close> for both fields, and the function returns a
  value in every case. The one request it sends is a GET of
  \<open>https://www.screener.in/company/<name>/consolidated/\<close>, where every space of the
  name is a hyphen and every ampersand is \<open>%26\<close>, with the header
  \<open>User-Agent: Mozilla/5.0\<close> and a timeout of 10 seconds. When the fetch succeeds
  both fields are what the extractor reads in the parsed document.
\<close>

theorem fetch_failures:
  "(get (screener_request name) = Inl e \<longrightarrow>
      scrape_screener_data_minimal get parser stock_name name = \<lparr>pe_ratio = NA, interest = NA\<rparr>) \<and>
   (get (screener_request name) = Inr r \<and> 400 \<le> status_code r \<and> status_code r < 600 \<longrightarrow>
      scrape_screener_data_minimal get parser stock_name name = \<lparr>pe_ratio = NA, interest = NA\<rparr>) \<and>
   (get (screener_request name) = Inr r \<and> \<not> (400 \<le> status_code r \<and> status_code r < 600) \<and>
      parser (content r) = Inl e \<longrightarrow>
      scrape_screener_data_minimal get parser stock_name name = \<lparr>pe_ratio = NA, interest = NA\<rparr>) \<and>
   (get (screener_request name) = Inr r \<and> \<not> (400 \<le> status_code r \<and> status_code r < 600) \<and>
      parser (content r) = Inr soup \<longrightarrow>
      scrape_screener_data_minimal get parser stock_name name =
        \<lparr>pe_ratio = pe_of soup,
         interest = extract_table_value soup (u ''profit-loss'') (u ''Interest'')\<rparr>) \<and>
   url (screener_request name) =
     u ''https://www.screener.in/company/''
     @ concat (map (\<lambda>c. if c = 32 then u ''-'' else if c = 38 then u ''%26'' else [c]) name)
     @ u ''/consolidated/'' \<and>
   headers (screener_request name) = [(u ''User-Agent'', u ''Mozilla/5.0'')] \<and>
   timeout (screener_request name) = 10"
proof -
  have "extract_both pe_entry table_value soup =
     \<lparr>pe_ratio = pe_of soup,
      interest = extract_table_value soup (u ''profit-loss'') (u ''Interest'')\<rparr>"
    by (simp add: extract_both_def extract_table_value_def extract_pe_last)
  then show ?thesis
    using screener_url [of name]
    by (simp add: scrape_screener_data_minimal_def scrape_with_def raise_for_status_def
        unavailable_def screener_request_def)
qed

theorem fetch_failures_witness:
  "get_timeout (screener_request (u ''L&T FINANCE'')) = Inl RequestException \<and>
   scrape_screener_data_minimal get_timeout (parser_gives page_one) (u ''L&T FINANCE'')
     (u ''L&T FINANCE'') = \<lparr>pe_ratio = NA, interest = NA\<rparr> \<and>
   scrape_screener_data_minimal (get_answer 404) (parser_gives page_one) (u ''L&T FINANCE'')
     (u ''L&T FINANCE'') = \<lparr>pe_ratio = NA, interest = NA\<rparr> \<and>
   scrape_screener_data_minimal (get_answer 200) parser_fails (u ''L&T FINANCE'')
     (u ''L&T FINANCE'') = \<lparr>pe_ratio = NA, interest = NA\<rparr> \<and>
   scrape_screener_data_minimal (get_answer 200) (parser_gives page_one) (u ''L&T FINANCE'')
     (u ''L&T FINANCE'') =
     \<lparr>pe_ratio = pe_of page_one,
      interest = extract_table_value page_one (u ''profit-loss'') (u ''Interest'')\<rparr> \<and>
   url (screener_request (u ''L&T FINANCE'')) =
     u ''https://www.screener.in/company/L%26T-FINANCE/consolidated/''"
proof -
  let ?n = "u ''L&T FINANCE''"
  have t: "get_timeout (screener_request ?n) = Inl RequestException"
    by (simp add: get_timeout_def)
  have a: "get_answer st (screener_request ?n) = Inr \<lparr>status_code = st, content = []\<rparr>" for st
    by (simp add: get_answer_def)
  have p: "parser_fails [] = Inl OtherError" "parser_gives page_one [] = Inr page_one"
    by (simp_all add: parser_fails_def parser_gives_def)
  have 1: "scrape_screener_data_minimal get_timeout (parser_gives page_one) ?n ?n =
      \<lparr>pe_ratio = NA, interest = NA\<rparr>"
    using fetch_failures [where get = get_timeout and name = ?n and e = RequestException
        and parser = "parser_gives page_one" and stock_name = ?n] t
    by blast
  have 2: "scrape_screener_data_minimal (get_answer 404) (parser_gives page_one) ?n ?n =
      \<lparr>pe_ratio = NA, interest = NA\<rparr>"
    using fetch_failures [where get = "get_answer 404" and name = ?n
        and parser = "parser_gives page_one" and stock_name = ?n
        and r = "\<lparr>status_code = 404, content = []\<rparr>"] a [of 404]
    by simp
  have 3: "scrape_screener_data_minimal (get_answer 200) parser_fails ?n ?n =
      \<lparr>pe_ratio = NA, interest = NA\<rparr>"
    using fetch_failures [where get = "get_answer 200" and name = ?n and e = OtherError
        and parser = parser_fails and stock_name = ?n
        and r = "\<lparr>status_code = 200, content = []\<rparr>"] a [of 200] p(1)
    by simp
  have 4: "scrape_screener_data_minimal (get_answer 200) (parser_gives page_one) ?n ?n =
      \<lparr>pe_ratio = pe_of page_one,
       interest = extract_table_value page_one (u ''profit-loss'') (u ''Interest'')\<rparr>"
    using fetch_failures [where get = "get_answer 200" and name = ?n
        and parser = "parser_gives page_one" and stock_name = ?n
        and r = "\<lparr>status_code = 200, content = []\<rparr>" and soup = page_one] a [of 200] p(2)
    by simp
  have 5: "url (screener_request ?n) =
     u ''https://www.screener.in/company/L%26T-FINANCE/consolidated/''"
    using fetch_failures [where get = get_timeout and name = ?n and parser = parser_fails
        and stock_name = ?n]
    by (simp add: u_def)
  from t 1 2 3 4 5 show ?thesis by blast
qed

section \<open>The loop over the rows\<close>

lemma stock_name_empty: "(stock_name_of row = []) = (\<not> kept row)"
  by (simp add: stock_name_of_def kept_def upper_def)

lemma run_rows_results:
  "results (run_rows w cols n irs st) =
   results st @ map (\<lambda>row. stock_result w cols row (stock_name_of row))
                  (filter kept (map snd irs))"
proof (induction irs arbitrary: st)
  case Nil
  then show ?case by simp
next
  case (Cons ir irs)
  obtain index row where ir: "ir = (index, row)" by (cases ir)
  show ?case
    by (simp add: ir Cons.IH row_step_def after_progress_def stock_name_empty)
qed

lemma run_rows_events:
  "events (run_rows w cols n irs st) =
   events st @ concat (map (row_events w n) irs)"
proof (induction irs arbitrary: st)
  case Nil
  then show ?case by simp
next
  case (Cons ir irs)
  obtain index row where ir: "ir = (index, row)" by (cases ir)
  show ?case
    by (simp add: ir Cons.IH row_step_def after_progress_def stock_name_empty row_events_def)
qed

lemma snd_iterrows: "map snd (iterrows df) = rows df"
  by (simp add: iterrows_def)

lemma fst_iterrows: "map fst (iterrows df) = [0..<length (rows df)]"
  by (simp add: iterrows_def)

lemma map_of_merge:
  "map_of (merge_original cols row d) c =
   (case map_of d c of
      Some v \<Rightarrow> Some v
    | None \<Rightarrow> if c \<in> set cols then Some (Cell (row c)) else None)"
proof (induction cols arbitrary: d)
  case Nil
  then show ?case by (simp split: option.splits)
next
  case (Cons col cols)
  show ?case
  proof (cases "col \<in> fst ` set d")
    case True
    then have "map_of d col \<noteq> None" by (simp add: map_of_eq_None_iff)
    with True show ?thesis by (auto simp: Cons.IH split: option.splits)
  next
    case False
    then have "map_of d col = None" by (simp add: map_of_eq_None_iff)
    with False show ?thesis
      by (auto simp: Cons.IH map_add_def split: option.splits)
  qed
qed

lemma current_result_keys: "map fst (current_result row s yf sd) = final_new_cols"
  by (simp add: current_result_def final_new_cols_def)

lemma current_result_new:
  "map (map_of (current_result row s yf sd)) final_new_cols =
   map Some [Cell (row (u ''Stock Name'')), Val (PyStr s), Val (fst yf), Val (fst (snd yf)),
             Val (pe_ratio sd), Val (interest sd)]"
  by (simp add: current_result_def final_new_cols_def u_def)

lemma select_new:
  "map (map_of (merge_original cols row (current_result row s yf sd))) final_new_cols =
   map Some [Cell (row (u ''Stock Name'')), Val (PyStr s), Val (fst yf), Val (fst (snd yf)),
             Val (pe_ratio sd), Val (interest sd)]"
proof -
  have "map_of (merge_original cols row (current_result row s yf sd)) c =
        map_of (current_result row s yf sd) c" if "c \<in> set final_new_cols" for c
  proof -
    from that have "c \<in> fst ` set (current_result row s yf sd)"
      using current_result_keys [of row s yf sd] by (metis set_map)
    then obtain v where "map_of (current_result row s yf sd) c = Some v"
      by (metis map_of_eq_None_iff not_Some_eq)
    then show ?thesis by (simp add: map_of_merge)
  qed
  then have "map (map_of (merge_original cols row (current_result row s yf sd))) final_new_cols =
        map (map_of (current_result row s yf sd)) final_new_cols"
    by simp
  then show ?thesis by (simp only: current_result_new)
qed

lemma select_original:
  "map (map_of (merge_original cols row (current_result row s yf sd))) (original_cols cols) =
   map (\<lambda>c. Some (Cell (row c))) (original_cols cols)"
proof -
  have "map_of (merge_original cols row (current_result row s yf sd)) c = Some (Cell (row c))"
    if "c \<in> set (original_cols cols)" for c
  proof -
    from that have c: "c \<in> set cols" "c \<notin> set final_new_cols"
      by (simp_all add: original_cols_def)
    then have "c \<notin> fst ` set (current_result row s yf sd)"
      using current_result_keys [of row s yf sd] by (metis set_map)
    then have "map_of (current_result row s yf sd) c = None"
      by (simp add: map_of_eq_None_iff)
    with c(1) show ?thesis by (simp add: map_of_merge)
  qed
  then show ?thesis by simp
qed


section \<open>C7: rows without a name\<close>

lemma stock_result_name:
  "map_of (stock_result w cols row name) (u ''Stock Name'') = Some (Cell (row (u ''Stock Name'')))"
  by (simp add: stock_result_def map_of_merge current_result_def)

lemma stock_result_symbol:
  "map_of (stock_result w cols row name) (u ''YF Symbol Used'') =
   Some (Val (PyStr (fst (resolve name))))"
  by (simp add: stock_result_def map_of_merge current_result_def u_def)

lemma process_results:
  "results (process w df) =
   map (\<lambda>row. stock_result w (columns df) row (stock_name_of row)) (filter kept (rows df))"
  by (simp add: process_def run_rows_results snd_iterrows)

text \<open>
  What the loop keeps. The name of a row is the text \<open>str\<close> makes of its \<open>Stock Name\<close>
  cell. The results of a run are those of the rows whose name, without the white space
  at its ends, is not empty, in the order of the sheet and one for each such row, every
  result carrying the cell of its row.
\<close>

lemma kept_rows:
  "map (\<lambda>d. map_of d (u ''Stock Name'')) (results (process w df)) =
     map (\<lambda>row. Some (Cell (row (u ''Stock Name''))))
       (filter (\<lambda>row. strip (py_str (row (u ''Stock Name''))) \<noteq> []) (rows df))"
  "length (results (process w df)) =
     length (filter (\<lambda>row. strip (py_str (row (u ''Stock Name''))) \<noteq> []) (rows df))"
proof -
  have k: "kept = (\<lambda>row. strip (py_str (row (u ''Stock Name''))) \<noteq> [])"
    by (rule ext) (simp add: kept_def)
  show "map (\<lambda>d. map_of d (u ''Stock Name'')) (results (process w df)) =
     map (\<lambda>row. Some (Cell (row (u ''Stock Name''))))
       (filter (\<lambda>row. strip (py_str (row (u ''Stock Name''))) \<noteq> []) (rows df))"
    unfolding k [symmetric] by (simp add: process_results stock_result_name comp_def)
  show "length (results (process w df)) =
     length (filter (\<lambda>row. strip (py_str (row (u ''Stock Name''))) \<noteq> []) (rows df))"
    unfolding k [symmetric] by (simp add: process_results)
qed

lemma four_names:
  "filter (\<lambda>row. strip (py_str (row (u ''Stock Name''))) \<noteq> [])
     (rows (names_sheet [CStr (u ''INFOSYS''), CNaN, CStr (u ''  ''), CStr (u ''tcs'')])) =
   [name_row (CStr (u ''INFOSYS'')), name_row CNaN, name_row (CStr (u ''tcs''))]"
  by (simp add: names_sheet_def name_row_def text_eval)

text \<open>
  C7. The test of line 111 leaves out a row whose name is a string that is empty or
  holds white space only. It does not leave out a row whose cell is empty: the sheet
  gives \<open>nan\<close> for such a cell, line 110 makes the text \<open>nan\<close> and the name \<open>NAN\<close> of it,
  and the row is processed as a stock. On the sheet with the four cells \<open>INFOSYS\<close>,
  an empty cell, two spaces and \<open>tcs\<close> the run has three results, in the order of the
  sheet, the second one for the empty cell with the symbol \<open>NAN.NS\<close>; only the row of
  the two spaces is left out.
\<close>

theorem empty_cell_kept:
  "map (\<lambda>d. map_of d (u ''Stock Name''))
     (results (process world_down
        (names_sheet [CStr (u ''INFOSYS''), CNaN, CStr (u ''  ''), CStr (u ''tcs'')]))) =
     [Some (Cell (CStr (u ''INFOSYS''))), Some (Cell CNaN), Some (Cell (CStr (u ''tcs'')))] \<and>
   map (\<lambda>d. map_of d (u ''YF Symbol Used''))
     (results (process world_down
        (names_sheet [CStr (u ''INFOSYS''), CNaN, CStr (u ''  ''), CStr (u ''tcs'')]))) =
     [Some (Val (PyStr (u ''INFY.NS''))), Some (Val (PyStr (u ''NAN.NS''))),
      Some (Val (PyStr (u ''TCS.NS'')))] \<and>
   length (results (process world_down
        (names_sheet [CStr (u ''INFOSYS''), CNaN, CStr (u ''  ''), CStr (u ''tcs'')]))) = 3"
proof -
  let ?df = "names_sheet [CStr (u ''INFOSYS''), CNaN, CStr (u ''  ''), CStr (u ''tcs'')]"
  have n: "stock_name_of (name_row (CStr (u ''INFOSYS''))) = u ''INFOSYS''"
    "stock_name_of (name_row CNaN) = u ''NAN''"
    "stock_name_of (name_row (CStr (u ''tcs''))) = u ''TCS''"
    by (simp_all add: stock_name_of_def name_row_def text_eval)
  have r: "fst (resolve (u ''INFOSYS'')) = u ''INFY.NS''"
    "fst (resolve (u ''NAN'')) = u ''NAN.NS''"
    "fst (resolve (u ''TCS'')) = u ''TCS.NS''"
    by (simp_all add: resolve_eval text_eval)
  have "map (\<lambda>d. map_of d (u ''Stock Name'')) (results (process world_down ?df)) =
     [Some (Cell (CStr (u ''INFOSYS''))), Some (Cell CNaN), Some (Cell (CStr (u ''tcs'')))]"
    by (simp add: kept_rows(1) four_names name_row_def)
  moreover have "map (\<lambda>d. map_of d (u ''YF Symbol Used'')) (results (process world_down ?df)) =
     [Some (Val (PyStr (u ''INFY.NS''))), Some (Val (PyStr (u ''NAN.NS''))),
      Some (Val (PyStr (u ''TCS.NS'')))]"
  proof -
    have "filter kept (rows ?df) =
        [name_row (CStr (u ''INFOSYS'')), name_row CNaN, name_row (CStr (u ''tcs''))]"
      by (simp add: names_sheet_def name_row_def kept_def text_eval)
    then show ?thesis
      by (simp add: process_results stock_result_symbol n r)
  qed
  moreover have "length (results (process world_down ?df)) = 3"
    by (simp add: kept_rows(2) four_names)
  ultimately show ?thesis by blast
qed

section \<open>C8: the merged row\<close>

text \<open>
  C8. Under the six new columns a result holds the cell of the name, the symbol used
  and the four extracted values, also when the sheet has a column of the same name;
  under every other column of the sheet it holds the cell of the row. The output
  table has the six new columns first, in their fixed order, and then the other
  columns of the sheet in the order of the sheet.
\<close>

theorem merged_columns:
  "select_columns (final_new_cols @ original_cols cols) (stock_result w cols row name) =
     map Some
       ([Cell (row (u ''Stock Name'')),
         Val (PyStr (fst (resolve name))),
         Val (fst (market_data (ticker_info w (fst (resolve name))))),
         Val (market_cap_cr (ticker_info w (fst (resolve name)))),
         Val (pe_ratio (scrape_screener_data_minimal (http_get w) (html_parser w) name
                (snd (resolve name)))),
         Val (interest (scrape_screener_data_minimal (http_get w) (html_parser w) name
                (snd (resolve name))))]
        @ map (\<lambda>c. Cell (row c)) (original_cols cols)) \<and>
   (rs \<noteq> [] \<longrightarrow>
      df_results cols rs =
        Some (final_new_cols @ original_cols cols,
              map (select_columns (final_new_cols @ original_cols cols)) rs)) \<and>
   final_new_cols = [u ''Stock Name'', u ''YF Symbol Used'', u ''Current Price (Rs.)'',
                     u ''Market Cap (Cr.)'', u ''P/E Ratio'', u ''Interest (Cr.)''] \<and>
   original_cols cols = filter (\<lambda>c. c \<notin> set final_new_cols) cols"
  by (simp add: select_columns_def stock_result_def select_new select_original
      market_cap_cr_def df_results_def comp_def)
    (simp add: final_new_cols_def original_cols_def)

lemma world_up_market:
  "market_data (ticker_info world_up s) = (PyInt 1500, PyFloat (nearest_double 1235 100), False)"
  by (simp add: world_up_def market_data_def cap_step_def dict_get_def quote_def
      market_cap_example u_def)

lemma world_up_screener:
  "scrape_screener_data_minimal (http_get world_up) (html_parser world_up) name sname =
     \<lparr>pe_ratio = PyFloat (nearest_double 253 10), interest = PyFloat (nearest_double 5 1)\<rparr>"
  by (simp add: world_up_def scrape_screener_data_minimal_def scrape_with_def get_answer_def
      parser_gives_def raise_for_status_def page_one_values)

lemma wide_sheet_results:
  "results (process world_up wide_sheet) =
     [stock_result world_up [u ''Sector'', u ''Stock Name'', u ''P/E Ratio''] wide_row
        (u ''INFOSYS'')]"
  by (simp add: process_results wide_sheet_def kept_def stock_name_of_def wide_row_def text_eval)

lemma wide_sheet_original:
  "original_cols [u ''Sector'', u ''Stock Name'', u ''P/E Ratio''] = [u ''Sector'']"
  by (simp add: original_cols_def final_new_cols_def u_def)

theorem merged_columns_witness:
  "results (process world_up wide_sheet) \<noteq> [] \<and>
   df_results (columns wide_sheet) (results (process world_up wide_sheet)) =
     Some ([u ''Stock Name'', u ''YF Symbol Used'', u ''Current Price (Rs.)'',
            u ''Market Cap (Cr.)'', u ''P/E Ratio'', u ''Interest (Cr.)'', u ''Sector''],
           [[Some (Cell (CStr (u ''Infosys ''))), Some (Val (PyStr (u ''INFY.NS''))),
             Some (Val (PyInt 1500)), Some (Val (PyFloat (nearest_double 1235 100))),
             Some (Val (PyFloat (nearest_double 253 10))),
             Some (Val (PyFloat (nearest_double 5 1))), Some (Cell (CStr (u ''IT'')))]])"
proof -
  let ?cols = "[u ''Sector'', u ''Stock Name'', u ''P/E Ratio'']"
  let ?rs = "results (process world_up wide_sheet)"
  have ne: "?rs \<noteq> []" by (simp add: wide_sheet_results)
  have cols: "columns wide_sheet = ?cols" by (simp add: wide_sheet_def)
  have rs: "resolve (u ''INFOSYS'') = (u ''INFY.NS'', u ''INFOSYS'')"
    by (simp add: resolve_eval u_def)
  have cells: "wide_row (u ''Stock Name'') = CStr (u ''Infosys '')"
    "wide_row (u ''Sector'') = CStr (u ''IT'')"
    by (simp_all add: wide_row_def u_def)
  note m = merged_columns [of ?cols world_up wide_row "u ''INFOSYS''" ?rs]
  have row: "select_columns (final_new_cols @ original_cols ?cols)
        (stock_result world_up ?cols wide_row (u ''INFOSYS'')) =
      [Some (Cell (CStr (u ''Infosys ''))), Some (Val (PyStr (u ''INFY.NS''))),
       Some (Val (PyInt 1500)), Some (Val (PyFloat (nearest_double 1235 100))),
       Some (Val (PyFloat (nearest_double 253 10))),
       Some (Val (PyFloat (nearest_double 5 1))), Some (Cell (CStr (u ''IT'')))]"
    using m [THEN conjunct1]
    by (simp add: rs cells world_up_market world_up_screener market_cap_cr_def
        wide_sheet_original)
  have "df_results ?cols ?rs =
        Some (final_new_cols @ original_cols ?cols,
              map (select_columns (final_new_cols @ original_cols ?cols)) ?rs)"
    using m [THEN conjunct2, THEN conjunct1] ne by blast
  then have "df_results ?cols ?rs =
        Some (final_new_cols @ [u ''Sector''],
              [select_columns (final_new_cols @ original_cols ?cols)
                 (stock_result world_up ?cols wide_row (u ''INFOSYS''))])"
    by (simp add: wide_sheet_results wide_sheet_original)
  with ne cols row show ?thesis
    by (simp add: final_new_cols_def)
qed

section \<open>C9: the progress\<close>

lemma progress_values_append:
  "progress_values (xs @ ys) = progress_values xs @ progress_values ys"
  by (simp add: progress_values_def)

lemma progress_values_stock: "progress_values (stock_events w name) = []"
  by (simp add: progress_values_def stock_events_def yf_warning_def)

lemma progress_values_row:
  "progress_values (row_events w n ir) = [progress_of (fst ir) n]"
proof -
  have "progress_values (Progress p # es) = p # progress_values es" for p es
    by (simp add: progress_values_def)
  moreover have "progress_values [] = []"
    by (simp add: progress_values_def)
  ultimately show ?thesis
    by (simp add: row_events_def progress_values_stock)
qed

lemma progress_values_rows:
  "progress_values (concat (map (row_events w n) irs)) = map (\<lambda>i. progress_of i n) (map fst irs)"
  by (induction irs) (simp_all add: progress_values_append progress_values_row,
      simp add: progress_values_def)

lemma progress_increases:
  "sorted_wrt (<) (map (\<lambda>i. progress_of i n) [0..<n])"
proof -
  have "progress_of i n < progress_of j n" if "i < j" "j < n" for i j
    using that by (simp add: progress_of_def divide_strict_right_mono)
  then show ?thesis
    by (simp add: sorted_wrt_map sorted_wrt_iff_nth_less)
qed

lemma process_events:
  "events (process w df) = concat (map (row_events w (length (rows df))) (iterrows df))"
  by (simp add: process_def run_rows_events)

text \<open>
  C9, as the claim states it, fails in the order of the events: the progress of a row is
  set at the start of its iteration (lines 107 and 108), before the row is processed.
  For a sheet of one row the bar is at 1, the whole, before the stock is fetched.
\<close>

theorem progress_comes_first:
  "events (process world_down (names_sheet [CStr (u ''INFOSYS'')])) =
     [Progress 1, Processing (u ''INFOSYS''), YFWarning (u ''INFY.NS''), Sleep 1] \<and>
   events (process world_down (names_sheet [CStr (u ''INFOSYS'')])) \<noteq>
     [Processing (u ''INFOSYS''), YFWarning (u ''INFY.NS''), Sleep 1, Progress 1]"
  by (simp add: process_events iterrows_def names_sheet_def name_row_def row_events_def
      progress_of_def kept_def stock_name_of_def stock_events_def yf_warning_def
      resolve_eval world_down_def market_data_def text_eval)

text \<open>
  C9 (amended). For every row, in the order of the sheet, the run first sets the progress
  to the position of the row (counted from 1, skipped rows included) over the number of
  rows, and then processes the row or skips it. The progress values of a run are
  \<open>1 / n\<close>, \<open>2 / n\<close>, up to \<open>n / n\<close>, a strictly increasing sequence.
\<close>

theorem progress_trace:
  "events (process w df) =
     concat (map (\<lambda>ir. Progress (of_nat (fst ir + 1) / of_nat (length (rows df)))
                       # (if strip (py_str (snd ir (u ''Stock Name''))) \<noteq> []
                          then stock_events w (stock_name_of (snd ir)) else []))
               (iterrows df)) \<and>
   progress_values (events (process w df)) =
     map (\<lambda>i. of_nat (i + 1) / of_nat (length (rows df))) [0..<length (rows df)] \<and>
   sorted_wrt (<) (progress_values (events (process w df)))"
proof -
  have r: "row_events w n = (\<lambda>ir. Progress (of_nat (fst ir + 1) / of_nat n)
                       # (if strip (py_str (snd ir (u ''Stock Name''))) \<noteq> []
                          then stock_events w (stock_name_of (snd ir)) else []))" for n
    by (rule ext) (simp add: row_events_def progress_of_def kept_def)
  have p: "progress_values (events (process w df)) =
      map (\<lambda>i. progress_of i (length (rows df))) [0..<length (rows df)]"
    by (simp add: process_events progress_values_rows fst_iterrows)
  moreover have "sorted_wrt (<) (progress_values (events (process w df)))"
    unfolding p by (rule progress_increases)
  ultimately show ?thesis
    using process_events [of w df] by (simp add: r progress_of_def)
qed

theorem progress_trace_witness:
  "progress_values (events (process world_down
      (names_sheet [CStr (u ''INFOSYS''), CStr (u ''  ''), CStr (u ''tcs'')]))) =
     [1 / 3, 2 / 3, 1] \<and>
   sorted_wrt (<) [1 / 3, 2 / 3, (1 :: rat)]"
proof -
  let ?df = "names_sheet [CStr (u ''INFOSYS''), CStr (u ''  ''), CStr (u ''tcs'')]"
  have "length (rows ?df) = 3" by (simp add: names_sheet_def)
  note t = progress_trace [of world_down ?df]
  have "progress_values (events (process world_down ?df)) =
          map (\<lambda>i. of_nat (i + 1) / of_nat 3) [0..<3]"
    using t [THEN conjunct2, THEN conjunct1] \<open>length (rows ?df) = 3\<close> by simp
  moreover have "sorted_wrt (<) (progress_values (events (process world_down ?df)))"
    using t [THEN conjunct2, THEN conjunct2] .
  moreover have "map (\<lambda>i. of_nat (i + 1) / of_nat 3) [0..<3] = [1 / 3, 2 / 3, (1 :: rat)]"
    by (simp add: upt_rec)
  ultimately show ?thesis by simp
qed

section \<open>C10: a missing name\<close>

lemma nan_name_text: "upper (strip (u ''nan'')) = u ''NAN''"
  by (simp add: text_eval)

text \<open>
  C10. A row whose \<open>Stock Name\<close> cell is \<open>nan\<close> is not skipped: \<open>str\<close> makes \<open>nan\<close> of
  it, the name is \<open>NAN\<close>, which is not in the table, so that the symbols are \<open>NAN.NS\<close>
  and \<open>NAN\<close>, and the row step appends a result with that symbol and the cell itself
  as the name.
\<close>

theorem nan_name_processed:
  "row (u ''Stock Name'') = CNaN \<longrightarrow>
     stock_name_of row = u ''NAN'' \<and>
     resolve (stock_name_of row) = (u ''NAN.NS'', u ''NAN'') \<and>
     results (row_step w cols n i row st) = results st @ [stock_result w cols row (u ''NAN'')] \<and>
     map_of (stock_result w cols row (u ''NAN'')) (u ''YF Symbol Used'') =
       Some (Val (PyStr (u ''NAN.NS''))) \<and>
     map_of (stock_result w cols row (u ''NAN'')) (u ''Stock Name'') = Some (Cell CNaN)"
proof
  assume a: "row (u ''Stock Name'') = CNaN"
  then have n: "stock_name_of row = u ''NAN''"
    by (simp add: stock_name_of_def nan_name_text)
  have r: "resolve (u ''NAN'') = (u ''NAN.NS'', u ''NAN'')"
    by (simp add: resolve_eval text_eval)
  have "u ''NAN'' \<noteq> []" by (simp add: u_def)
  with n have "results (row_step w cols n i row st) =
      results st @ [stock_result w cols row (u ''NAN'')]"
    by (simp add: row_step_def after_progress_def)
  with a n r show "stock_name_of row = u ''NAN'' \<and>
     resolve (stock_name_of row) = (u ''NAN.NS'', u ''NAN'') \<and>
     results (row_step w cols n i row st) = results st @ [stock_result w cols row (u ''NAN'')] \<and>
     map_of (stock_result w cols row (u ''NAN'')) (u ''YF Symbol Used'') =
       Some (Val (PyStr (u ''NAN.NS''))) \<and>
     map_of (stock_result w cols row (u ''NAN'')) (u ''Stock Name'') = Some (Cell CNaN)"
    using stock_result_name [of w cols row "u ''NAN''"]
      stock_result_symbol [of w cols row "u ''NAN''"]
    by simp
qed

theorem nan_name_processed_witness:
  "name_row CNaN (u ''Stock Name'') = CNaN \<and>
   results (process world_down (names_sheet [CNaN])) =
     [stock_result world_down [u ''Stock Name''] (name_row CNaN) (u ''NAN'')] \<and>
   map_of (stock_result world_down [u ''Stock Name''] (name_row CNaN) (u ''NAN''))
     (u ''YF Symbol Used'') = Some (Val (PyStr (u ''NAN.NS'')))"
proof -
  have a: "name_row CNaN (u ''Stock Name'') = CNaN"
    by (simp add: name_row_def)
  from nan_name_processed [of "name_row CNaN" world_down "[u ''Stock Name'']" 1 0
      "\<lparr>results = [], events = []\<rparr>"] a
  have "results (row_step world_down [u ''Stock Name''] 1 0 (name_row CNaN)
          \<lparr>results = [], events = []\<rparr>) =
        [stock_result world_down [u ''Stock Name''] (name_row CNaN) (u ''NAN'')]"
    and "map_of (stock_result world_down [u ''Stock Name''] (name_row CNaN) (u ''NAN''))
     (u ''YF Symbol Used'') = Some (Val (PyStr (u ''NAN.NS'')))"
    by simp_all
  with a show ?thesis
    by (simp add: process_def iterrows_def names_sheet_def)
qed

end
